theory Spec2Isabelle
  imports Complex_Main
begin

section \<open>Values of type double\<close>

text \<open>
  The C++ code computes with IEEE doubles. A double is modelled as a finite real number or
  one of the three special values; arithmetic on finite values is exact (no rounding, no
  overflow, no underflow), zero carries no sign (a zero divisor counts as +0), and the special
  values follow the IEEE rules: every comparison with NaN is false, \<open>inf - inf\<close>,
  \<open>0 * inf\<close>, \<open>0 / 0\<close> and \<open>inf / inf\<close> are NaN, \<open>log 0 = -inf\<close>.
\<close>

datatype double = Fin real | PInf | NInf | NaN

fun dlt :: "double \<Rightarrow> double \<Rightarrow> bool" where
  "dlt (Fin x) (Fin y) = (x < y)"
| "dlt (Fin x) PInf = True"
| "dlt NInf (Fin y) = True"
| "dlt NInf PInf = True"
| "dlt _ _ = False"

fun deq :: "double \<Rightarrow> double \<Rightarrow> bool" where
  "deq NaN _ = False"
| "deq _ NaN = False"
| "deq a b = (a = b)"

definition dle :: "double \<Rightarrow> double \<Rightarrow> bool" where
  "dle a b = (dlt a b \<or> deq a b)"

definition dgt :: "double \<Rightarrow> double \<Rightarrow> bool" where
  "dgt a b = dlt b a"

definition dge :: "double \<Rightarrow> double \<Rightarrow> bool" where
  "dge a b = dle b a"

fun isFinite :: "double \<Rightarrow> bool" where
  "isFinite (Fin x) = True"
| "isFinite _ = False"

fun dneg :: "double \<Rightarrow> double" where
  "dneg (Fin x) = Fin (- x)"
| "dneg PInf = NInf"
| "dneg NInf = PInf"
| "dneg NaN = NaN"

fun dadd :: "double \<Rightarrow> double \<Rightarrow> double" where
  "dadd (Fin x) (Fin y) = Fin (x + y)"
| "dadd NaN _ = NaN"
| "dadd _ NaN = NaN"
| "dadd PInf NInf = NaN"
| "dadd NInf PInf = NaN"
| "dadd PInf _ = PInf"
| "dadd _ PInf = PInf"
| "dadd NInf _ = NInf"
| "dadd _ NInf = NInf"

definition dsub :: "double \<Rightarrow> double \<Rightarrow> double" where
  "dsub a b = dadd a (dneg b)"

fun dmul :: "double \<Rightarrow> double \<Rightarrow> double" where
  "dmul (Fin x) (Fin y) = Fin (x * y)"
| "dmul NaN _ = NaN"
| "dmul _ NaN = NaN"
| "dmul (Fin x) PInf = (if x = 0 then NaN else if 0 < x then PInf else NInf)"
| "dmul (Fin x) NInf = (if x = 0 then NaN else if 0 < x then NInf else PInf)"
| "dmul PInf (Fin y) = (if y = 0 then NaN else if 0 < y then PInf else NInf)"
| "dmul NInf (Fin y) = (if y = 0 then NaN else if 0 < y then NInf else PInf)"
| "dmul PInf PInf = PInf"
| "dmul PInf NInf = NInf"
| "dmul NInf PInf = NInf"
| "dmul NInf NInf = PInf"

fun ddiv :: "double \<Rightarrow> double \<Rightarrow> double" where
  "ddiv (Fin x) (Fin y) =
     (if y \<noteq> 0 then Fin (x / y) else if x = 0 then NaN else if 0 < x then PInf else NInf)"
| "ddiv NaN _ = NaN"
| "ddiv _ NaN = NaN"
| "ddiv (Fin x) _ = Fin 0"
| "ddiv PInf (Fin y) = (if 0 \<le> y then PInf else NInf)"
| "ddiv NInf (Fin y) = (if 0 \<le> y then NInf else PInf)"
| "ddiv _ _ = NaN"

fun dsqrt :: "double \<Rightarrow> double" where
  "dsqrt (Fin x) = (if 0 \<le> x then Fin (sqrt x) else NaN)"
| "dsqrt PInf = PInf"
| "dsqrt _ = NaN"

fun dlog :: "double \<Rightarrow> double" where
  "dlog (Fin x) = (if 0 < x then Fin (ln x) else if x = 0 then NInf else NaN)"
| "dlog PInf = PInf"
| "dlog _ = NaN"

fun dexp :: "double \<Rightarrow> double" where
  "dexp (Fin x) = Fin (exp x)"
| "dexp PInf = PInf"
| "dexp NInf = Fin 0"
| "dexp NaN = NaN"

text \<open>\<open>fmax\<close> and \<open>fmin\<close> of the C library: a NaN argument is ignored.\<close>

fun dfmax :: "double \<Rightarrow> double \<Rightarrow> double" where
  "dfmax NaN b = b"
| "dfmax a NaN = a"
| "dfmax a b = (if dlt a b then b else a)"

fun dfmin :: "double \<Rightarrow> double \<Rightarrow> double" where
  "dfmin NaN b = b"
| "dfmin a NaN = a"
| "dfmin a b = (if dlt b a then b else a)"

definition pow_2 :: "double \<Rightarrow> double" where
  "pow_2 x = dmul x x"

definition pow_3 :: "double \<Rightarrow> double" where
  "pow_3 x = dmul (dmul x x) x"

section \<open>Errors and loops\<close>

text \<open>
  \<open>std::runtime_error\<close> and \<open>std::invalid_argument\<close> carry the fixed leading text of the
  message (the numbers that the source appends with \<open>utils::toString\<close> are left out);
  a failed \<open>assert\<close> is an error of its own, and so is a read of a vector outside its
  range (undefined behaviour in C++).
\<close>

datatype error = RuntimeError string | InvalidArgument string | AssertionFailed | OutOfBounds

text \<open>A \<open>for\<close> loop over the indices \<open>xs\<close> whose body may throw: the first error ends it.\<close>

fun for_loop :: "'a list \<Rightarrow> ('a \<Rightarrow> 's \<Rightarrow> error + 's) \<Rightarrow> 's \<Rightarrow> error + 's" where
  "for_loop [] body s = Inr s"
| "for_loop (x # xs) body s =
     (case body x s of Inl e \<Rightarrow> Inl e | Inr s' \<Rightarrow> for_loop xs body s')"

section \<open>Collaborators outside the modelled file\<close>

text \<open>
  \<open>math::IFunction\<close>: a function of one variable with \<open>value\<close>, the first derivative that
  \<open>evalDeriv\<close> returns, and \<open>numDerivs\<close>.
\<close>

record IFunction =
  fn_value :: "double \<Rightarrow> double"
  fn_deriv :: "double \<Rightarrow> double"
  numDerivs :: nat

text \<open>
  \<open>potential::PhaseVolume\<close>: \<open>pv_h\<close> is \<open>operator()(E)\<close>; \<open>pv_E h\<close> is the triple
  (E, g = dh/dE, dg/dh) that \<open>E(h, &g, &dgdh)\<close> returns; \<open>pv_deltaE logh1 logh2\<close> is
  the pair (E(h1) - E(h2), g(h1)) that \<open>deltaE(logh1, logh2, &g)\<close> returns.
\<close>

record PhaseVolume =
  pv_h :: "double \<Rightarrow> double"
  pv_E :: "double \<Rightarrow> double \<times> double \<times> double"
  pv_deltaE :: "double \<Rightarrow> double \<Rightarrow> double \<times> double"

text \<open>
  A \<open>math::LogLogSpline\<close> object holds the nodes, values and derivatives given to its
  constructor; a \<open>math::CubicSpline2d\<close> object holds its two grids and the matrix of values.
\<close>

record LogLogSpline =
  sp_x :: "double list"
  sp_val :: "double list"
  sp_der :: "double list"

record CubicSpline2d =
  sp2_x :: "double list"
  sp2_y :: "double list"
  sp2_z :: "double list list"

text \<open>
  The routines of the \<open>math\<close> library that the file calls and whose code is elsewhere:
  the Gauss-Legendre tables (indexed by order, then by node; finite constants), the
  evaluation of the splines (\<open>spline_eval s h\<close> is the triple: value, first and second
  derivative), the evaluation and the limits of the domain of a 2d spline, \<open>clamp\<close>, the
  root finder, the random number generator (it returns the number and the new generator
  state), the grid builders (\<open>createInterpolationGrid df\<close> stands for the call
  \<open>createInterpolationGrid(LogLogScaledFnc(df), ACCURACY_INTERP)\<close>), the fixed-order
  integrator \<open>integrateGL\<close>, the integrand rescaled by a \<open>ScalingCub\<close> between two limits,
  the special functions, \<open>std::pow\<close> and the integer power \<open>math::pow\<close>.
\<close>

record 'rng mathlib =
  GLPOINTS :: "nat \<Rightarrow> nat \<Rightarrow> real"
  GLWEIGHTS :: "nat \<Rightarrow> nat \<Rightarrow> real"
  spline_eval :: "LogLogSpline \<Rightarrow> double \<Rightarrow> double \<times> double \<times> double"
  spline2d_value :: "CubicSpline2d \<Rightarrow> double \<Rightarrow> double \<Rightarrow> double"
  spline2d_xmin :: "CubicSpline2d \<Rightarrow> double"
  spline2d_xmax :: "CubicSpline2d \<Rightarrow> double"
  spline2d_ymin :: "CubicSpline2d \<Rightarrow> double"
  spline2d_ymax :: "CubicSpline2d \<Rightarrow> double"
  findRoot :: "(double \<Rightarrow> double) \<Rightarrow> double \<Rightarrow> double \<Rightarrow> double \<Rightarrow> double"
  random :: "'rng \<Rightarrow> double \<times> 'rng"
  clamp :: "double \<Rightarrow> double \<Rightarrow> double \<Rightarrow> double"
  createInterpolationGrid :: "IFunction \<Rightarrow> double list"
  createNonuniformGrid :: "nat \<Rightarrow> double \<Rightarrow> double \<Rightarrow> bool \<Rightarrow> double list"
  integrateGL :: "(double \<Rightarrow> double) \<Rightarrow> double \<Rightarrow> double \<Rightarrow> nat \<Rightarrow> double"
  scaledCub :: "double \<Rightarrow> double \<Rightarrow> (double \<Rightarrow> double) \<Rightarrow> double \<Rightarrow> double"
  gamma :: "double \<Rightarrow> double"
  hypergeom2F1 :: "double \<Rightarrow> double \<Rightarrow> double \<Rightarrow> double \<Rightarrow> double"
  std_pow :: "double \<Rightarrow> double \<Rightarrow> double"
  math_pow :: "double \<Rightarrow> nat \<Rightarrow> double"

text \<open>
  Modelled from the spec: the code of \<open>math::createNonuniformGrid\<close> is not under src. The
  spec has the Y grid of \<open>SphericalIsotropicModelLocal\<close> as a fixed nonuniform 100-point
  grid spanning [0, logHmax - logHmin]: when the last argument asks for a node at zero, the
  grid has the requested number of nodes and its first node is 0.
\<close>

definition createNonuniformGrid_spec :: "'rng mathlib \<Rightarrow> bool" where
  "createNonuniformGrid_spec lib =
     (\<forall>n d x. 2 \<le> n \<longrightarrow>
        length (createNonuniformGrid lib n d x True) = n \<and>
        createNonuniformGrid lib n d x True ! 0 = Fin 0)"

text \<open>
  Modelled from the spec: the code of \<open>math::CubicSpline2d\<close> is not under src. The spec
  treats the 2d cubic spline as an interpolation primitive: a surface over the two grids, fit
  to the tabulated values, to whose domain the callers clamp their arguments, and it has the
  boundary values of J1 and J3 verified by evaluating the surface at its Y-minimum for
  several X. The contract taken from this: the domain runs from the first to the last node
  of each grid; and on the grid line at the Y-minimum, when all the nodes of that line hold
  the same value, the surface takes that value at every X of the domain (a cubic spline
  through equal values is constant).
\<close>

definition CubicSpline2d_spec :: "'rng mathlib \<Rightarrow> bool" where
  "CubicSpline2d_spec lib =
     (\<forall>s. spline2d_xmin lib s = hd (sp2_x s) \<and> spline2d_xmax lib s = last (sp2_x s) \<and>
          spline2d_ymin lib s = hd (sp2_y s) \<and> spline2d_ymax lib s = last (sp2_y s) \<and>
          (\<forall>c x. sp2_x s \<noteq> [] \<and> sp2_y s \<noteq> [] \<and>
                 (\<forall>i < length (sp2_x s). sp2_z s ! i ! 0 = c) \<and>
                 dle (hd (sp2_x s)) x \<and> dle x (last (sp2_x s))
             \<longrightarrow> spline2d_value lib s x (hd (sp2_y s)) = c))"

section \<open>Constants of the file\<close>

definition EPSROOT :: double where
  "EPSROOT = Fin (1 / 10 ^ 6)"

definition GLORDER :: nat where
  "GLORDER = 8"

definition GLORDER1 :: nat where
  "GLORDER1 = 6"

definition GLORDER2 :: nat where
  "GLORDER2 = 10"

definition GLDELTA :: double where
  "GLDELTA = Fin (7 / 10)"

definition MIN_VALUE_ROUNDOFF :: double where
  "MIN_VALUE_ROUNDOFF = Fin (9999999999999 / 10 ^ 113)"

section \<open>computeDensity\<close>

definition computeDensity_msg :: string where
  "computeDensity_msg = ''computeDensity: grid in Phi must be monotonically increasing''"

text \<open>
  The body of the innermost loop (over \<open>j\<close>), on the pair (result, gridVelDisp). The
  \<open>assert(dif>=0)\<close> of the source is a branch of the model: \<open>ndebug\<close> tells whether the
  file is compiled with \<open>NDEBUG\<close>, which removes the assertion; without it a failed
  assertion ends the run.
\<close>

definition computeDensity_j ::
  "bool \<Rightarrow> double list \<Rightarrow> bool \<Rightarrow> double \<Rightarrow> double \<Rightarrow> nat \<Rightarrow> double list \<times> double list
     \<Rightarrow> error + double list \<times> double list" where
  "computeDensity_j ndebug gridPhi wantVD Phi weight j st =
     (let dif = dsub Phi (gridPhi ! j) in
      if \<not> ndebug \<and> \<not> dge dif (Fin 0) then Inl AssertionFailed
      else
        let val = (if dgt dif (Fin 0) then dmul (dsqrt dif) weight else Fin 0);
            result = (fst st)[j := dadd (fst st ! j) val];
            vd = (if wantVD then (snd st)[j := dadd (snd st ! j) (dmul val dif)] else snd st)
        in Inr (result, vd))"

text \<open>The body of the loop over the nodes \<open>k\<close> of the quadrature rule.\<close>

definition computeDensity_k ::
  "bool \<Rightarrow> 'rng mathlib \<Rightarrow> IFunction \<Rightarrow> PhaseVolume \<Rightarrow> double list \<Rightarrow> bool \<Rightarrow> nat \<Rightarrow> double
     \<Rightarrow> nat \<Rightarrow> double list \<times> double list \<Rightarrow> error + double list \<times> double list" where
  "computeDensity_k ndebug lib df pv gridPhi wantVD i deltaPhi k st =
     (let y = Fin (GLPOINTS lib GLORDER k);
          Phi = dadd (gridPhi ! i) (dmul (dmul y y) deltaPhi);
          weight = dmul (dmul (dmul (dmul (dmul (Fin (GLWEIGHTS lib GLORDER k)) (Fin 2)) y)
                     deltaPhi) (fn_value df (pv_h pv Phi))) (Fin (4 * pi * sqrt 2))
      in for_loop [0 ..< Suc i] (computeDensity_j ndebug gridPhi wantVD Phi weight) st)"

text \<open>
  The body of the loop over the grid segments \<open>i\<close>; the last segment ends at 0. The guard
  is the comparison \<open>deltaPhi<=0\<close> of the source, which is false when \<open>deltaPhi\<close> is NaN.
\<close>

definition computeDensity_i ::
  "bool \<Rightarrow> 'rng mathlib \<Rightarrow> IFunction \<Rightarrow> PhaseVolume \<Rightarrow> double list \<Rightarrow> bool
     \<Rightarrow> nat \<Rightarrow> double list \<times> double list \<Rightarrow> error + double list \<times> double list" where
  "computeDensity_i ndebug lib df pv gridPhi wantVD i st =
     (let gridsize = length gridPhi;
          deltaPhi = dsub (if i < gridsize - 1 then gridPhi ! (i + 1) else Fin 0) (gridPhi ! i)
      in if dle deltaPhi (Fin 0) then Inl (RuntimeError computeDensity_msg)
         else for_loop [0 ..< GLORDER]
                (computeDensity_k ndebug lib df pv gridPhi wantVD i deltaPhi) st)"

text \<open>
  \<open>computeDensity\<close> returns the density at each grid node and, when the caller passes
  \<open>gridVelDisp\<close> (\<open>wantVD\<close>), the velocity dispersions.
\<close>

definition computeDensity ::
  "bool \<Rightarrow> 'rng mathlib \<Rightarrow> IFunction \<Rightarrow> PhaseVolume \<Rightarrow> double list \<Rightarrow> bool
     \<Rightarrow> error + double list \<times> double list option" where
  "computeDensity ndebug lib df pv gridPhi wantVD =
     (let gridsize = length gridPhi;
          zeros = (replicate gridsize (Fin 0), if wantVD then replicate gridsize (Fin 0) else [])
      in case for_loop [0 ..< gridsize] (computeDensity_i ndebug lib df pv gridPhi wantVD) zeros of
           Inl e \<Rightarrow> Inl e
         | Inr (result, vd) \<Rightarrow>
             Inr (result,
                  if wantVD
                  then Some (map2 (\<lambda>v r. dsqrt (ddiv (dmul (Fin (2 / 3)) v) r)) vd result)
                  else None))"

section \<open>SphericalIsotropicModel\<close>

record SphericalIsotropicModel =
  phasevol :: PhaseVolume
  intf :: LogLogSpline
  intfg :: LogLogSpline
  intfh :: LogLogSpline
  intfE :: LogLogSpline
  totalMass :: double
  htransition :: double

subsection \<open>The constructor\<close>

definition msg_df_negative :: string where
  "msg_df_negative = ''SphericalIsotropicModel: f(''"

definition msg_rises_too_rapidly :: string where
  "msg_rises_too_rapidly = ''SphericalIsotropicModel: f(h) rises too rapidly as h-->0''"

definition msg_falls_too_slowly :: string where
  "msg_falls_too_slowly = ''SphericalIsotropicModel: f(h) falls off too slowly as h-->infinity''"

definition msg_weird_potential :: string where
  "msg_weird_potential = ''SphericalIsotropicModel: weird behaviour of potential''"

definition msg_weird_E_infinity :: string where
  "msg_weird_E_infinity = ''SphericalIsotropicModel: weird behaviour of E(h) at infinity: ''"

definition msg_weird_f_origin :: string where
  "msg_weird_f_origin = ''SphericalIsotropicModel: weird behaviour of f(h) at origin: ''"

definition msg_nowhere_positive :: string where
  "msg_nowhere_positive = ''SphericalIsotropicModel: f(h) is nowhere positive''"

definition msg_no_interpolators :: string where
  "msg_no_interpolators = ''SphericalIsotropicModel: cannot construct valid interpolators''"


text \<open>Step 1: the grid in log h, from the caller's grid in h or from the grid builder.\<close>

definition make_gridLogH :: "'rng mathlib \<Rightarrow> IFunction \<Rightarrow> double list \<Rightarrow> double list" where
  "make_gridLogH lib df gridh =
     (if gridh = [] then createInterpolationGrid lib df else map dlog gridh)"

text \<open>Step 2: the values of f, g, h and E at the nodes; a value of f that is not >= 0 throws.\<close>

record node_values =
  gridF :: "double list"
  gridG :: "double list"
  gridH :: "double list"
  gridE :: "double list"

definition tabulate_node ::
  "PhaseVolume \<Rightarrow> IFunction \<Rightarrow> double list \<Rightarrow> nat \<Rightarrow> node_values \<Rightarrow> error + node_values" where
  "tabulate_node pv df gridLogH i v =
     (let h = dexp (gridLogH ! i);
          f = fn_value df h
      in if \<not> dge f (Fin 0) then Inl (RuntimeError msg_df_negative)
         else Inr \<lparr> gridF = (gridF v)[i := f],
                    gridG = (gridG v)[i := fst (snd (pv_E pv h))],
                    gridH = (gridH v)[i := h],
                    gridE = (gridE v)[i := fst (pv_E pv h)] \<rparr>)"

definition tabulate_nodes ::
  "PhaseVolume \<Rightarrow> IFunction \<Rightarrow> double list \<Rightarrow> error + node_values" where
  "tabulate_nodes pv df gridLogH =
     (let npoints = length gridLogH;
          zeros = replicate npoints (Fin 0)
      in for_loop [0 ..< npoints] (tabulate_node pv df gridLogH)
           \<lparr> gridF = zeros, gridG = zeros, gridH = zeros, gridE = zeros \<rparr>)"

text \<open>
  Step 3a: the slopes of f at the two ends as the source infers them, from the derivative
  of the DF when it provides one and from the two outermost nodes otherwise. The quotients
  are exact here, where the source rounds each operation: a slope that the source infers
  within a rounding error of -1 can fall on the other side of the tests of step 3a.
\<close>

definition innerFslope_inferred :: "IFunction \<Rightarrow> double list \<Rightarrow> node_values \<Rightarrow> double" where
  "innerFslope_inferred df gridLogH v =
     (if numDerivs df \<ge> 1
      then dmul (ddiv (fn_deriv df (gridH v ! 0)) (gridF v ! 0)) (gridH v ! 0)
      else ddiv (dlog (ddiv (gridF v ! 1) (gridF v ! 0))) (dsub (gridLogH ! 1) (gridLogH ! 0)))"

definition outerFslope_inferred :: "IFunction \<Rightarrow> double list \<Rightarrow> node_values \<Rightarrow> double" where
  "outerFslope_inferred df gridLogH v =
     (let npoints = length gridLogH in
      if numDerivs df \<ge> 1
      then dmul (ddiv (fn_deriv df (gridH v ! (npoints - 1))) (gridF v ! (npoints - 1)))
             (gridH v ! (npoints - 1))
      else ddiv (dlog (ddiv (gridF v ! (npoints - 1)) (gridF v ! (npoints - 2))))
             (dsub (gridLogH ! (npoints - 1)) (gridLogH ! (npoints - 2))))"

text \<open>
  The two checks of step 3a. A boundary value of f at or below the threshold is set to zero
  together with its slope; otherwise the slope must pass its test. The result is the
  updated \<open>gridF\<close> with the two slopes. With fewer than two nodes the source reads
  \<open>gridF[1]\<close> or \<open>gridF[npoints-2]\<close> outside the vector (when it infers the slopes from
  two nodes, and when it builds the message of either error).
\<close>

definition asymptotic_F ::
  "IFunction \<Rightarrow> double list \<Rightarrow> node_values \<Rightarrow> error + double list \<times> double \<times> double" where
  "asymptotic_F df gridLogH v =
     (let npoints = length gridLogH in
      if npoints = 0 \<or> (numDerivs df = 0 \<and> npoints < 2) then Inl OutOfBounds
      else
        let innerFslope = innerFslope_inferred df gridLogH v;
            outerFslope = outerFslope_inferred df gridLogH v;
            snap_inner = dle (gridF v ! 0) MIN_VALUE_ROUNDOFF
        in if \<not> snap_inner \<and> \<not> dgt innerFslope (Fin (- 1))
           then (if npoints < 2 then Inl OutOfBounds else Inl (RuntimeError msg_rises_too_rapidly))
           else
             let gridF1 = (if snap_inner then (gridF v)[0 := Fin 0] else gridF v);
                 innerFslope1 = (if snap_inner then Fin 0 else innerFslope);
                 snap_outer = dle (gridF1 ! (npoints - 1)) MIN_VALUE_ROUNDOFF
             in if \<not> snap_outer \<and> \<not> dlt outerFslope (Fin (- 1))
                then (if npoints < 2 then Inl OutOfBounds
                      else Inl (RuntimeError msg_falls_too_slowly))
                else Inr (if snap_outer then gridF1[npoints - 1 := Fin 0] else gridF1,
                          innerFslope1,
                          if snap_outer then Fin 0 else outerFslope))"

text \<open>
  Step 3b: the slopes of E(h) at the two ends and their checks. \<open>innerE\<close> is measured from
  \<open>Phi0\<close> when the potential at the origin is finite.
\<close>

record E_slopes =
  Phi0 :: double
  innerE :: double
  outerE :: double
  innerEslope :: double
  outerEslope :: double
  outerRatio :: double

definition asymptotic_E ::
  "PhaseVolume \<Rightarrow> node_values \<Rightarrow> double \<Rightarrow> double \<Rightarrow> error + E_slopes" where
  "asymptotic_E pv v innerFslope outerFslope =
     (let Phi0 = fst (pv_E pv (Fin 0));
          innerE0 = hd (gridE v);
          outerE = last (gridE v)
      in if \<not> (dlt Phi0 innerE0 \<and> dlt innerE0 outerE \<and> dlt outerE (Fin 0))
         then Inl (RuntimeError msg_weird_potential)
         else
           let innerE = (if \<not> deq Phi0 NInf then dsub innerE0 Phi0 else innerE0);
               innerEslope = ddiv (ddiv (hd (gridH v)) (hd (gridG v))) innerE;
               outerEslope = ddiv (ddiv (last (gridH v)) (last (gridG v))) outerE;
               outerRatio = ddiv outerFslope outerEslope
           in if \<not> dlt outerEslope (Fin 0) then Inl (RuntimeError msg_weird_E_infinity)
              else if \<not> dgt (dadd innerEslope innerFslope) (Fin (- 1))
              then Inl (RuntimeError msg_weird_f_origin)
              else Inr \<lparr> Phi0 = Phi0, innerE = innerE, outerE = outerE,
                         innerEslope = innerEslope, outerEslope = outerEslope,
                         outerRatio = outerRatio \<rparr>)"

text \<open>
  Step 4a: the contribution of node \<open>k\<close> of the quadrature rule on the segment
  \<open>logh[i-1] .. logh[i]\<close> to the four integrals.
\<close>

record integrals =
  gridFint :: "double list"
  gridFGint :: "double list"
  gridFHint :: "double list"
  gridFEint :: "double list"

definition integrate_node ::
  "'rng mathlib \<Rightarrow> PhaseVolume \<Rightarrow> IFunction \<Rightarrow> double list \<Rightarrow> nat \<Rightarrow> double \<Rightarrow> nat
     \<Rightarrow> nat \<Rightarrow> integrals \<Rightarrow> error + integrals" where
  "integrate_node lib pv df gridLogH i dlogh glorder k a =
     (let logh = dadd (gridLogH ! (i - 1)) (dmul dlogh (Fin (GLPOINTS lib glorder k)));
          weight = dmul (Fin (GLWEIGHTS lib glorder k)) dlogh;
          h = dexp logh;
          g = fst (snd (pv_E pv h));
          E = fst (pv_E pv h);
          f = fn_value df h
      in if \<not> dge f (Fin 0) then Inl (RuntimeError msg_df_negative)
         else
           let integrand = dmul (dmul f h) weight
           in Inr \<lparr> gridFint = (gridFint a)[i - 1 := dadd (gridFint a ! (i - 1)) (ddiv integrand g)],
                     gridFGint = (gridFGint a)[i := dadd (gridFGint a ! i) integrand],
                     gridFHint = (gridFHint a)[i := dadd (gridFHint a ! i) (dmul (ddiv integrand g) h)],
                     gridFEint = (gridFEint a)[i := dsub (gridFEint a ! i) (dmul integrand E)] \<rparr>)"

definition integrate_segment ::
  "'rng mathlib \<Rightarrow> PhaseVolume \<Rightarrow> IFunction \<Rightarrow> double list \<Rightarrow> nat \<Rightarrow> integrals
     \<Rightarrow> error + integrals" where
  "integrate_segment lib pv df gridLogH i a =
     (let dlogh = dsub (gridLogH ! i) (gridLogH ! (i - 1));
          glorder = (if dlt dlogh GLDELTA then GLORDER1 else GLORDER2)
      in for_loop [0 ..< glorder] (integrate_node lib pv df gridLogH i dlogh glorder) a)"

definition integrate_segments ::
  "'rng mathlib \<Rightarrow> PhaseVolume \<Rightarrow> IFunction \<Rightarrow> double list \<Rightarrow> error + integrals" where
  "integrate_segments lib pv df gridLogH =
     (let npoints = length gridLogH;
          zeros = replicate npoints (Fin 0)
      in for_loop [1 ..< npoints] (integrate_segment lib pv df gridLogH)
           \<lparr> gridFint = zeros, gridFGint = zeros, gridFHint = zeros, gridFEint = zeros \<rparr>)"

text \<open>
  Step 4b: the integral of f dE from outside in; the segment beyond the last node is
  integrated analytically.
\<close>

definition accumulate_Fint :: "double list \<Rightarrow> E_slopes \<Rightarrow> double list \<Rightarrow> double list" where
  "accumulate_Fint gF sl Fint =
     (let npoints = length Fint;
          Fint0 = Fint[npoints - 1 :=
                    ddiv (dmul (dneg (last gF)) (outerE sl)) (dadd (Fin 1) (outerRatio sl))]
      in fold (\<lambda>i xs. xs[i - 1 := dadd (xs ! (i - 1)) (xs ! i)]) (rev [1 ..< npoints]) Fint0)"

text \<open>A running sum from inside out, \<open>xs[i] += xs[i-1]\<close> for i = 1, 2, ...\<close>

definition running_sum :: "double list \<Rightarrow> double list" where
  "running_sum xs = fold (\<lambda>i ys. ys[i := dadd (ys ! i) (ys ! (i - 1))]) [1 ..< length xs] xs"

text \<open>
  Step 4c: the other three integrals from inside out. The segment below the first node is
  integrated analytically, the running sums follow, and the segment beyond the last node is
  added to the last entry.
\<close>

definition accumulate_FGint :: "double list \<Rightarrow> double list \<Rightarrow> double \<Rightarrow> double \<Rightarrow> double list
     \<Rightarrow> double list" where
  "accumulate_FGint gF gH innerFslope outerFslope FGint =
     (let npoints = length FGint;
          xs = running_sum
                 (FGint[0 := ddiv (dmul (gF ! 0) (gH ! 0)) (dadd (Fin 1) innerFslope)])
      in xs[npoints - 1 :=
            dsub (xs ! (npoints - 1)) (ddiv (dmul (last gF) (last gH)) (dadd (Fin 1) outerFslope))])"

definition accumulate_FHint ::
  "double list \<Rightarrow> double list \<Rightarrow> double list \<Rightarrow> E_slopes \<Rightarrow> double \<Rightarrow> double \<Rightarrow> double list
     \<Rightarrow> double list" where
  "accumulate_FHint gF gG gH sl innerFslope outerFslope FHint =
     (let npoints = length FHint;
          xs = running_sum
                 (FHint[0 := ddiv (ddiv (dmul (gF ! 0) (pow_2 (gH ! 0))) (gG ! 0))
                                (dadd (dadd (Fin 1) (innerEslope sl)) innerFslope)])
      in xs[npoints - 1 :=
            dsub (xs ! (npoints - 1))
              (ddiv (ddiv (dmul (last gF) (pow_2 (last gH))) (last gG))
                 (dadd (dadd (Fin 1) (outerEslope sl)) outerFslope))])"

definition accumulate_FEint ::
  "double list \<Rightarrow> double list \<Rightarrow> E_slopes \<Rightarrow> double \<Rightarrow> double \<Rightarrow> double list \<Rightarrow> double list" where
  "accumulate_FEint gF gH sl innerFslope outerFslope FEint =
     (let npoints = length FEint;
          xs = running_sum
                 (FEint[0 := dmul (dmul (gF ! 0) (gH ! 0))
                    (if dge (innerEslope sl) (Fin 0)
                     then ddiv (dneg (Phi0 sl)) (dadd (Fin 1) innerFslope)
                     else ddiv (dneg (innerE sl))
                            (dadd (dadd (Fin 1) innerFslope) (innerEslope sl)))])
      in xs[npoints - 1 :=
            dadd (xs ! (npoints - 1))
              (ddiv (dmul (dmul (last gF) (last gH)) (outerE sl))
                 (dadd (dadd (Fin 1) (outerEslope sl)) outerFslope))])"

text \<open>
  The value of h that separates the two ways of computing f(h) from the splines:
  \<open>htransition = gridH[0]; for(i=1; i<npoints-1 && gridFGint[i+1] < totalMass*0.999; i++)
  htransition = gridH[i];\<close>. The loop is run from the index \<open>i\<close> with the current value
  \<open>ht\<close>.
\<close>

function htransition_loop ::
  "double list \<Rightarrow> double list \<Rightarrow> double \<Rightarrow> nat \<Rightarrow> double \<Rightarrow> double" where
  "htransition_loop gH FGint M i ht =
     (if i < length gH - 1 \<and> dlt (FGint ! (i + 1)) (dmul M (Fin (999 / 1000)))
      then htransition_loop gH FGint M (i + 1) (gH ! i)
      else ht)"
  by pat_completeness auto
termination
  by (relation "measure (\<lambda>(gH, FGint, M, i, ht). length gH - i)") auto

declare htransition_loop.simps [simp del]

definition find_htransition :: "double list \<Rightarrow> double list \<Rightarrow> double \<Rightarrow> double" where
  "find_htransition gH FGint M = htransition_loop gH FGint M 1 (gH ! 0)"

text \<open>
  Step 5a: the derivatives of the four integrals at the nodes, with the check of their signs
  and of the finiteness of the integrals.
\<close>

definition derivs_ok :: "double list \<Rightarrow> node_values \<Rightarrow> integrals \<Rightarrow> nat \<Rightarrow> bool" where
  "derivs_ok gF v a i =
     (dle (ddiv (dneg (gF ! i)) (gridG v ! i)) (Fin 0) \<and>
      dge (gF ! i) (Fin 0) \<and>
      dge (ddiv (dmul (gF ! i) (gridH v ! i)) (gridG v ! i)) (Fin 0) \<and>
      dge (dmul (dneg (gF ! i)) (gridE v ! i)) (Fin 0) \<and>
      isFinite (dadd (dadd (dadd (gridFint a ! i) (gridFGint a ! i)) (gridFHint a ! i))
                  (gridFEint a ! i)))"

text \<open>
  The whole constructor. The splines are built from the nodes \<open>gridH\<close>, the integrals and
  their derivatives; the derivatives of the three integrals with a finite limit are set to
  zero at the last node.
\<close>

definition SphericalIsotropicModel_new ::
  "'rng mathlib \<Rightarrow> PhaseVolume \<Rightarrow> IFunction \<Rightarrow> double list \<Rightarrow> error + SphericalIsotropicModel" where
  "SphericalIsotropicModel_new lib pv df gridh =
     (let gridLogH = make_gridLogH lib df gridh;
          npoints = length gridLogH
      in case tabulate_nodes pv df gridLogH of Inl e \<Rightarrow> Inl e | Inr v \<Rightarrow>
         (case asymptotic_F df gridLogH v of Inl e \<Rightarrow> Inl e
          | Inr (gF, innerFslope, outerFslope) \<Rightarrow>
         (case asymptotic_E pv v innerFslope outerFslope of Inl e \<Rightarrow> Inl e | Inr sl \<Rightarrow>
         (case integrate_segments lib pv df gridLogH of Inl e \<Rightarrow> Inl e | Inr a \<Rightarrow>
            let Fint = accumulate_Fint gF sl (gridFint a);
                FGint = accumulate_FGint gF (gridH v) innerFslope outerFslope (gridFGint a);
                FHint = accumulate_FHint gF (gridG v) (gridH v) sl innerFslope outerFslope
                          (gridFHint a);
                FEint = accumulate_FEint gF (gridH v) sl innerFslope outerFslope (gridFEint a);
                M = last FGint
            in if \<not> dgt M (Fin 0) then Inl (RuntimeError msg_nowhere_positive)
               else
                 let ht = find_htransition (gridH v) FGint M;
                     a' = \<lparr> gridFint = Fint, gridFGint = FGint, gridFHint = FHint,
                            gridFEint = FEint \<rparr>
                 in if \<not> list_all (derivs_ok gF v a') [0 ..< npoints]
                    then Inl (RuntimeError msg_no_interpolators)
                    else
                      let Fder = map (\<lambda>i. ddiv (dneg (gF ! i)) (gridG v ! i)) [0 ..< npoints];
                          FGder = (map (\<lambda>i. gF ! i) [0 ..< npoints])[npoints - 1 := Fin 0];
                          FHder = (map (\<lambda>i. ddiv (dmul (gF ! i) (gridH v ! i)) (gridG v ! i))
                                     [0 ..< npoints])[npoints - 1 := Fin 0];
                          FEder = (map (\<lambda>i. dmul (dneg (gF ! i)) (gridE v ! i))
                                     [0 ..< npoints])[npoints - 1 := Fin 0]
                      in Inr \<lparr> phasevol = pv,
                                intf = \<lparr> sp_x = gridH v, sp_val = Fint, sp_der = Fder \<rparr>,
                                intfg = \<lparr> sp_x = gridH v, sp_val = FGint, sp_der = FGder \<rparr>,
                                intfh = \<lparr> sp_x = gridH v, sp_val = FHint, sp_der = FHder \<rparr>,
                                intfE = \<lparr> sp_x = gridH v, sp_val = FEint, sp_der = FEder \<rparr>,
                                totalMass = M,
                                htransition = ht \<rparr>))))"

subsection \<open>The queries\<close>

text \<open>
  \<open>evalDeriv(h, f, dfdh)\<close>: the two outputs are optional (null pointers in the source);
  \<open>want_f\<close> and \<open>want_dfdh\<close> say which ones the caller asks for.
\<close>

definition evalDeriv ::
  "'rng mathlib \<Rightarrow> SphericalIsotropicModel \<Rightarrow> double \<Rightarrow> bool \<Rightarrow> bool
     \<Rightarrow> double option \<times> double option" where
  "evalDeriv lib m h want_f want_dfdh =
     (if dlt h (htransition m)
      then
        let der = fst (snd (spline_eval lib (intfg m) h));
            der2 = snd (snd (spline_eval lib (intfg m) h))
        in (if want_f then Some der else None, if want_dfdh then Some der2 else None)
      else
        let der = fst (snd (spline_eval lib (intf m) h));
            der2 = snd (snd (spline_eval lib (intf m) h));
            g = fst (snd (pv_E (phasevol m) h));
            dgdh = snd (snd (pv_E (phasevol m) h))
        in (if want_f then Some (dmul (dneg der) g) else None,
            if want_dfdh then Some (dsub (dmul (dneg der2) g) (dmul der dgdh)) else None))"

definition I0 :: "'rng mathlib \<Rightarrow> SphericalIsotropicModel \<Rightarrow> double \<Rightarrow> double" where
  "I0 lib m h = fst (spline_eval lib (intf m) h)"

definition cumulMass :: "'rng mathlib \<Rightarrow> SphericalIsotropicModel \<Rightarrow> double \<Rightarrow> double" where
  "cumulMass lib m h = (if deq h PInf then totalMass m else fst (spline_eval lib (intfg m) h))"

definition cumulEkin :: "'rng mathlib \<Rightarrow> SphericalIsotropicModel \<Rightarrow> double \<Rightarrow> double" where
  "cumulEkin lib m h = dmul (Fin (3 / 2)) (fst (spline_eval lib (intfh m) h))"

definition cumulEtotal :: "'rng mathlib \<Rightarrow> SphericalIsotropicModel \<Rightarrow> double \<Rightarrow> double" where
  "cumulEtotal lib m h = dneg (fst (spline_eval lib (intfE m) h))"

section \<open>SphericalIsotropicModelLocal\<close>

text \<open>The extended model: the base model with the two 2d splines that \<open>init\<close> builds.\<close>

record SphericalIsotropicModelLocal =
  base :: SphericalIsotropicModel
  intJ1 :: CubicSpline2d
  intJ3 :: CubicSpline2d

subsection \<open>init\<close>

definition msg_local_nowhere_positive :: string where
  "msg_local_nowhere_positive = ''SphericalIsotropicModelLocal: f(h) is nowhere positive''"

definition msg_local_falls_too_slowly :: string where
  "msg_local_falls_too_slowly =
     ''SphericalIsotropicModelLocal: f(h) falls off too slowly as h-->infinity''"

definition msg_local_weird_phasevol :: string where
  "msg_local_weird_phasevol =
     ''SphericalIsotropicModelLocal: weird asymptotic behaviour of phase volume''"

definition npointsY :: nat where
  "npointsY = 100"

text \<open>
  \<open>while(!gridLogH.empty() && df(exp(gridLogH.back())) <= MIN_VALUE_ROUNDOFF)
  gridLogH.pop_back();\<close>
\<close>

function trim_grid :: "IFunction \<Rightarrow> double list \<Rightarrow> double list" where
  "trim_grid df gridLogH =
     (if gridLogH \<noteq> [] \<and> dle (fn_value df (dexp (last gridLogH))) MIN_VALUE_ROUNDOFF
      then trim_grid df (butlast gridLogH)
      else gridLogH)"
  by pat_completeness auto
termination
  by (relation "measure (\<lambda>(df, gridLogH). length gridLogH)") auto

declare trim_grid.simps [simp del]

text \<open>
  \<open>SphericalIsotropicDFIntegrand<P>::value\<close>: the product of f and the weight
  \<open>(E - Phi)^(P/2)\<close>, as a function of log h.
\<close>

definition SphericalIsotropicDFIntegrand ::
  "'rng mathlib \<Rightarrow> nat \<Rightarrow> IFunction \<Rightarrow> PhaseVolume \<Rightarrow> double \<Rightarrow> double \<Rightarrow> double" where
  "SphericalIsotropicDFIntegrand lib P df pv logh0 logh =
     (let h = dexp logh;
          g = snd (pv_deltaE pv logh logh0);
          w = dsqrt (fst (pv_deltaE pv logh logh0))
      in dmul (ddiv (dmul (fn_value df h) h) g) (math_pow lib w P))"

text \<open>The asymptotic quantities that \<open>init\<close> computes once, before the loop over the grid.\<close>

record outer_asymptotics =
  outer_E :: double
  outer_Eslope :: double
  outer_Ratio :: double
  outerJ1 :: double
  outerJ3 :: double

text \<open>
  One step of the loop over \<open>j\<close> in row \<open>i\<close>: the accumulators J0acc, J1acc, J3acc and the
  entries of the row of gridJ1 and of gridJ3 filled so far.
\<close>

definition init_cell ::
  "'rng mathlib \<Rightarrow> SphericalIsotropicModel \<Rightarrow> IFunction \<Rightarrow> double list \<Rightarrow> double list
     \<Rightarrow> outer_asymptotics \<Rightarrow> nat \<Rightarrow> nat
     \<Rightarrow> double \<times> double \<times> double \<times> double list \<times> double list
     \<Rightarrow> double \<times> double \<times> double \<times> double list \<times> double list" where
  "init_cell lib m df gridLogH gridY oa i j st =
     (case st of (J0acc, J1acc, J3acc, rowJ1, rowJ3) \<Rightarrow>
      let pv = phasevol m;
          npoints = length gridLogH;
          fJ0 = SphericalIsotropicDFIntegrand lib 0 df pv (gridLogH ! i);
          fJ1 = SphericalIsotropicDFIntegrand lib 1 df pv (gridLogH ! i);
          fJ3 = SphericalIsotropicDFIntegrand lib 3 df pv (gridLogH ! i);
          logHprev = dadd (gridLogH ! i) (gridY ! (j - 1));
          logHcurr = dadd (gridLogH ! i) (gridY ! j);
          J0a = (if j = 1
                 then integrateGL lib (scaledCub lib logHprev logHcurr fJ0) (Fin 0) (Fin 1) GLORDER
                 else dadd J0acc (integrateGL lib fJ0 logHprev logHcurr GLORDER));
          J1a = (if j = 1
                 then integrateGL lib (scaledCub lib logHprev logHcurr fJ1) (Fin 0) (Fin 1) GLORDER
                 else dadd J1acc (integrateGL lib fJ1 logHprev logHcurr GLORDER));
          J3a = (if j = 1
                 then integrateGL lib (scaledCub lib logHprev logHcurr fJ3) (Fin 0) (Fin 1) GLORDER
                 else dadd J3acc (integrateGL lib fJ3 logHprev logHcurr GLORDER));
          EoverPhi = dexp (dmul (gridY ! j) (outer_Eslope oa));
          oneMinusJ0overI0 = std_pow lib EoverPhi (dadd (Fin 1) (outer_Ratio oa));
          Fval1 = hypergeom2F1 lib (Fin (- 1 / 2)) (dadd (Fin 1) (outer_Ratio oa))
                    (dadd (Fin 2) (outer_Ratio oa)) EoverPhi;
          Fval3 = hypergeom2F1 lib (Fin (- 3 / 2)) (dadd (Fin 1) (outer_Ratio oa))
                    (dadd (Fin 2) (outer_Ratio oa)) EoverPhi;
          I0v = fst (spline_eval lib (intf m) (dexp (gridLogH ! i)));
          sqPhi = dsqrt (dneg (outer_E oa));
          asym = (i = npoints - 1 \<and> isFinite (dadd Fval1 Fval3));
          J0b = (if asym then dmul I0v (dsub (Fin 1) oneMinusJ0overI0) else J0a);
          J1b = (if asym
                 then dmul (dmul I0v (dsub (outerJ1 oa) (dmul oneMinusJ0overI0 Fval1))) sqPhi
                 else J1a);
          J3b = (if asym
                 then dmul (dmul I0v (dsub (outerJ3 oa) (dmul oneMinusJ0overI0 Fval3)))
                        (pow_3 sqPhi)
                 else J3a);
          dv = dsqrt (fst (pv_deltaE pv logHcurr (gridLogH ! i)));
          J1overJ0 = ddiv (ddiv J1b J0b) dv;
          J3overJ0 = ddiv (ddiv J3b J0b) (pow_3 dv);
          invalid = (dle J1overJ0 (Fin 0) \<or> dle J3overJ0 (Fin 0)
                       \<or> \<not> isFinite (dadd J1overJ0 J3overJ0))
      in (J0b, J1b, J3b,
          rowJ1 @ [dlog (if invalid then Fin (2 / 3) else J1overJ0)],
          rowJ3 @ [dlog (if invalid then Fin (2 / 5) else J3overJ0)]))"

text \<open>
  Row \<open>i\<close> of the two matrices: the entry at \<open>j = 0\<close> is the analytic limit for Phi = E,
  the others are filled by the loop over \<open>j = 1 .. npointsY-1\<close>.
\<close>

definition init_row ::
  "'rng mathlib \<Rightarrow> SphericalIsotropicModel \<Rightarrow> IFunction \<Rightarrow> double list \<Rightarrow> double list
     \<Rightarrow> outer_asymptotics \<Rightarrow> nat \<Rightarrow> double list \<times> double list" where
  "init_row lib m df gridLogH gridY oa i =
     snd (snd (snd (fold (init_cell lib m df gridLogH gridY oa i) [1 ..< npointsY]
       (Fin 0, Fin 0, Fin 0, [dlog (Fin (2 / 3))], [dlog (Fin (2 / 5))]))))"

text \<open>
  \<open>init(df, gridh)\<close>, called on the constructed base model \<open>m\<close>: it returns the two
  splines \<open>intJ1\<close> and \<open>intJ3\<close>.
\<close>

definition init ::
  "'rng mathlib \<Rightarrow> SphericalIsotropicModel \<Rightarrow> IFunction \<Rightarrow> double list
     \<Rightarrow> error + CubicSpline2d \<times> CubicSpline2d" where
  "init lib m df gridh =
     (let gridLogH = trim_grid df (make_gridLogH lib df gridh) in
      if length gridLogH < 3 then Inl (RuntimeError msg_local_nowhere_positive)
      else
        let logHmin = hd gridLogH;
            logHmax = last gridLogH;
            npoints = length gridLogH;
            mindeltaY = dfmin (Fin (1 / 10)) (ddiv (dsub logHmax logHmin) (Fin (real npointsY)));
            gridY = createNonuniformGrid lib npointsY mindeltaY (dsub logHmax logHmin) True;
            outerH = dexp (last gridLogH);
            outerG = fst (snd (pv_E (phasevol m) outerH));
            outerE = fst (pv_E (phasevol m) outerH);
            outerFslope =
              (if numDerivs df \<ge> 1
               then dmul (ddiv (fn_deriv df outerH) (fn_value df outerH)) outerH
               else ddiv (dlog (ddiv (fn_value df outerH)
                                  (fn_value df (dexp (gridLogH ! (npoints - 2))))))
                      (dsub (gridLogH ! (npoints - 1)) (gridLogH ! (npoints - 2))))
        in if \<not> dlt outerFslope (Fin (- 1)) then Inl (RuntimeError msg_local_falls_too_slowly)
           else
             let outerEslope = ddiv (ddiv outerH outerG) outerE;
                 outerRatio = ddiv outerFslope outerEslope
             in if \<not> dgt outerRatio (Fin 0) then Inl (RuntimeError msg_local_weird_phasevol)
                else
                  let oJ1 = ddiv (dmul (Fin (1 / 2 * sqrt pi))
                                    (gamma lib (dadd (Fin 2) outerRatio)))
                              (gamma lib (dadd (Fin (5 / 2)) outerRatio));
                      oJ3 = ddiv (dmul oJ1 (Fin (3 / 2))) (dadd (Fin (5 / 2)) outerRatio);
                      oa = \<lparr> outer_E = outerE, outer_Eslope = outerEslope,
                             outer_Ratio = outerRatio, outerJ1 = oJ1, outerJ3 = oJ3 \<rparr>;
                      rows = map (init_row lib m df gridLogH gridY oa) [0 ..< npoints]
                  in Inr (\<lparr> sp2_x = gridLogH, sp2_y = gridY, sp2_z = map fst rows \<rparr>,
                          \<lparr> sp2_x = gridLogH, sp2_y = gridY, sp2_z = map snd rows \<rparr>))"

subsection \<open>sampleVelocity\<close>

definition msg_invalid_Phi :: string where
  "msg_invalid_Phi = ''SphericalIsotropicModelLocal: invalid value of Phi''"

text \<open>
  \<open>VelocitySampleRootFinder::value\<close>: the cumulative distribution function minus its
  target, as a function of log(h(E)/h(Phi)).
\<close>

definition VelocitySampleRootFinder_value ::
  "'rng mathlib \<Rightarrow> SphericalIsotropicModelLocal \<Rightarrow> double \<Rightarrow> double \<Rightarrow> double \<Rightarrow> double
     \<Rightarrow> double \<Rightarrow> double" where
  "VelocitySampleRootFinder_value lib m Phi loghPhi I0plusJ0 target loghEoverhPhi =
     (let hE = dexp (dadd loghEoverhPhi loghPhi);
          E = fst (pv_E (phasevol (base m)) hE);
          J0 = dsub I0plusJ0 (I0 lib (base m) hE);
          J1 = dmul (dexp (spline2d_value lib (intJ1 m) loghPhi loghEoverhPhi)) J0;
          val = dmul J1 (dsqrt (dfmax (dsub E Phi) (Fin 0)))
      in dsub val target)"

text \<open>
  The value that \<open>math::findRoot\<close> returns inside \<open>sampleVelocity\<close>, with the state of the
  random number generator after the draw.
\<close>

definition sampleVelocity_root ::
  "'rng mathlib \<Rightarrow> SphericalIsotropicModelLocal \<Rightarrow> double \<Rightarrow> 'rng \<Rightarrow> double \<times> double \<times> 'rng" where
  "sampleVelocity_root lib m Phi state =
     (let hPhi = pv_h (phasevol (base m)) Phi;
          loghPhi = clamp lib (dlog hPhi) (spline2d_xmin lib (intJ1 m)) (spline2d_xmax lib (intJ1 m));
          I0plusJ0 = I0 lib (base m) hPhi;
          maxJ1 = dmul (dexp (spline2d_value lib (intJ1 m) loghPhi (spline2d_ymax lib (intJ1 m))))
                    I0plusJ0;
          frac = fst (random lib state);
          target = dmul (dmul frac maxJ1) (dsqrt (dneg Phi))
      in (findRoot lib (VelocitySampleRootFinder_value lib m Phi loghPhi I0plusJ0 target)
            (spline2d_ymin lib (intJ1 m)) (spline2d_ymax lib (intJ1 m)) EPSROOT,
          loghPhi, snd (random lib state)))"

definition sampleVelocity ::
  "'rng mathlib \<Rightarrow> SphericalIsotropicModelLocal \<Rightarrow> double \<Rightarrow> 'rng \<Rightarrow> error + double \<times> 'rng" where
  "sampleVelocity lib m Phi state =
     (if \<not> dlt Phi (Fin 0) then Inl (InvalidArgument msg_invalid_Phi)
      else
        case sampleVelocity_root lib m Phi state of (loghEoverhPhi, loghPhi, state') \<Rightarrow>
          if \<not> dge loghEoverhPhi (Fin 0) then Inr (Fin 0, state')
          else
            let hE = dexp (dadd loghEoverhPhi loghPhi);
                E = fst (pv_E (phasevol (base m)) hE)
            in Inr (dsqrt (dmul (Fin 2) (dsub E Phi)), state'))"

section \<open>Stand-ins for running the model on concrete inputs\<close>

text \<open>
  A math library with simple values, for evaluating the definitions above on concrete inputs:
  the quadrature tables are those of the right-endpoint rule with equal weights, the root
  finder never finds a root, the random number generator always draws 1/2.
\<close>

definition stub_lib :: "unit mathlib" where
  "stub_lib =
     \<lparr> GLPOINTS = (\<lambda>n k. 1),
       GLWEIGHTS = (\<lambda>n k. 1 / real n),
       spline_eval = (\<lambda>s h. (Fin 1, Fin 2, Fin 3)),
       spline2d_value = (\<lambda>s x y. Fin 0),
       spline2d_xmin = (\<lambda>s. hd (sp2_x s)),
       spline2d_xmax = (\<lambda>s. last (sp2_x s)),
       spline2d_ymin = (\<lambda>s. hd (sp2_y s)),
       spline2d_ymax = (\<lambda>s. last (sp2_y s)),
       findRoot = (\<lambda>f a b eps. NaN),
       random = (\<lambda>state. (Fin (1 / 2), state)),
       clamp = (\<lambda>x lo hi. if dlt x lo then lo else if dgt x hi then hi else x),
       createInterpolationGrid = (\<lambda>df. []),
       createNonuniformGrid = (\<lambda>n d x z. map (\<lambda>k. Fin (real k)) [0 ..< n]),
       integrateGL = (\<lambda>f a b n. Fin 1),
       scaledCub = (\<lambda>a b f. f),
       gamma = (\<lambda>x. Fin 1),
       hypergeom2F1 = (\<lambda>a b c x. NaN),
       std_pow = (\<lambda>x y. Fin 1),
       math_pow = (\<lambda>x n. Fin 1) \<rparr>"

text \<open>
  The same library with a 2d spline that looks its value up in the table: the value at the
  first node of each grid that equals the argument, and at the last node when none does.
\<close>

fun node_index :: "double list \<Rightarrow> double \<Rightarrow> nat" where
  "node_index [] v = 0"
| "node_index (u # us) v = (if u = v \<or> us = [] then 0 else Suc (node_index us v))"

definition node_lib :: "unit mathlib" where
  "node_lib =
     stub_lib \<lparr> spline2d_value :=
       (\<lambda>s x y. sp2_z s ! node_index (sp2_x s) x ! node_index (sp2_y s) y) \<rparr>"

text \<open>
  The phase volume \<open>h(E) = -1/E - 1\<close>, that is \<open>E(h) = -1/(1+h)\<close>, with
  \<open>g = dh/dE = (1+h)^2\<close> and \<open>dg/dh = 2(1+h)\<close>.
\<close>

definition stub_phasevol :: PhaseVolume where
  "stub_phasevol =
     \<lparr> pv_h = (\<lambda>E. dsub (ddiv (Fin 1) (dneg E)) (Fin 1)),
       pv_E = (\<lambda>h. (dneg (ddiv (Fin 1) (dadd (Fin 1) h)), pow_2 (dadd (Fin 1) h),
                   dmul (Fin 2) (dadd (Fin 1) h))),
       pv_deltaE = (\<lambda>logh1 logh2.
                   (dsub (dneg (ddiv (Fin 1) (dadd (Fin 1) (dexp logh1))))
                      (dneg (ddiv (Fin 1) (dadd (Fin 1) (dexp logh2)))),
                    pow_2 (dadd (Fin 1) (dexp logh1)))) \<rparr>"

text \<open>The power law \<open>f(h) = h^-2\<close> cut off at h = 16, with its derivative.\<close>

definition stub_df :: IFunction where
  "stub_df =
     \<lparr> fn_value = (\<lambda>h. if dlt h (Fin 16) then ddiv (Fin 1) (pow_2 h) else Fin 0),
       fn_deriv = (\<lambda>h. if dlt h (Fin 16) then ddiv (Fin (- 2)) (pow_3 h) else Fin 0),
       numDerivs = 1 \<rparr>"

definition stub_spline :: LogLogSpline where
  "stub_spline = \<lparr> sp_x = [Fin 1, Fin 2], sp_val = [Fin 1, Fin 2], sp_der = [Fin 0, Fin 0] \<rparr>"

definition stub_spline2d :: CubicSpline2d where
  "stub_spline2d =
     \<lparr> sp2_x = [Fin 0, Fin 1], sp2_y = [Fin 0, Fin 1],
       sp2_z = [[Fin 0, Fin 0], [Fin 0, Fin 0]] \<rparr>"

definition stub_model :: SphericalIsotropicModel where
  "stub_model =
     \<lparr> phasevol = stub_phasevol, intf = stub_spline, intfg = stub_spline, intfh = stub_spline,
       intfE = stub_spline, totalMass = Fin 2, htransition = Fin 1 \<rparr>"

definition stub_local :: SphericalIsotropicModelLocal where
  "stub_local = \<lparr> base = stub_model, intJ1 = stub_spline2d, intJ3 = stub_spline2d \<rparr>"

text \<open>
  The DF \<open>f(h) = (1+h)^-2\<close> with its derivative: its slope \<open>-2h/(1+h)\<close> is above -1
  for h < 1 and below -1 for h > 1.
\<close>

definition cored_df :: IFunction where
  "cored_df =
     \<lparr> fn_value = (\<lambda>h. ddiv (Fin 1) (pow_2 (dadd (Fin 1) h))),
       fn_deriv = (\<lambda>h. ddiv (Fin (- 2)) (pow_3 (dadd (Fin 1) h))),
       numDerivs = 1 \<rparr>"


section \<open>Auxiliary notions for the proofs\<close>

text \<open>The length of segment i of a finite grid: the last one ends at 0.\<close>

definition seg :: "real list \<Rightarrow> nat \<Rightarrow> real" where
  "seg rs i = (if i < length rs - 1 then rs ! (i + 1) else 0) - rs ! i"

text \<open>
  \<open>grows x y\<close>: when y is finite, x is finite too and not above y. This is the relation
  between an accumulator before and after non-negative terms are added to it.
\<close>

definition grows :: "double \<Rightarrow> double \<Rightarrow> bool" where
  "grows x y = (\<forall>v. y = Fin v \<longrightarrow> (\<exists>u. x = Fin u \<and> u \<le> v))"

text \<open>The real number that a finite double stands for.\<close>

fun the_fin :: "double \<Rightarrow> real" where
  "the_fin (Fin x) = x"
| "the_fin _ = 0"

section \<open>Loops that may throw\<close>

lemma for_loop_append:
  "for_loop (xs @ ys) body s =
     (case for_loop xs body s of Inl e \<Rightarrow> Inl e | Inr s' \<Rightarrow> for_loop ys body s')"
  by (induction xs arbitrary: s) (auto split: sum.splits)

lemma for_loop_ok:
  "(\<And>x s. x \<in> set xs \<Longrightarrow> \<exists>s'. body x s = Inr s') \<Longrightarrow> \<exists>s'. for_loop xs body s = Inr s'"
proof (induction xs arbitrary: s)
  case Nil
  then show ?case by simp
next
  case (Cons x xs)
  from Cons.prems[of x s] obtain s1 where s1: "body x s = Inr s1" by auto
  from Cons.IH[of s1] Cons.prems obtain s2 where "for_loop xs body s1 = Inr s2" by auto
  with s1 show ?case by simp
qed

lemma for_loop_fail:
  assumes ok: "\<And>x s. x \<in> set xs \<Longrightarrow> \<exists>s'. body x s = Inr s'"
    and bad: "\<And>s. body p s = Inl e"
  shows "for_loop (xs @ p # ys) body s = Inl e"
proof -
  from for_loop_ok[of xs body s] ok obtain s1 where "for_loop xs body s = Inr s1" by blast
  then show ?thesis by (simp add: for_loop_append bad)
qed

section \<open>Properties of the queries\<close>

lemma dge_not_dlt: "dge a b \<Longrightarrow> \<not> dlt a b"
  by (cases a; cases b) (auto simp add: dge_def dle_def)

lemma dmul_dneg_left: "dmul (dneg a) b = dneg (dmul b a)"
  by (cases a; cases b) (auto simp add: mult.commute)

text \<open>
  Claim C5: \<open>cumulMass(h)\<close> returns exactly the stored \<open>totalMass\<close> when h is +infinity,
  and the value of the spline \<open>intfg\<close> at h for every finite h.
\<close>

theorem cumulMass_value:
  "cumulMass lib m PInf = totalMass m \<and>
   cumulMass lib m (Fin x) = fst (spline_eval lib (intfg m) (Fin x))"
  by (simp add: cumulMass_def)

text \<open>
  Claim C4: for h < htransition, \<open>evalDeriv\<close> returns as f the first derivative of the
  spline \<open>intfg\<close> and as df/dh its second derivative; for h >= htransition it returns
  as f minus g(h) times the first derivative of the spline \<open>intf\<close>, and as df/dh the
  product rule \<open>-der2*g - der*dg/dh\<close>. Each output is produced only when asked for.
\<close>

theorem evalDeriv_branches:
  "(dlt h (htransition m) \<longrightarrow>
      evalDeriv lib m h want_f want_dfdh =
        (if want_f then Some (fst (snd (spline_eval lib (intfg m) h))) else None,
         if want_dfdh then Some (snd (snd (spline_eval lib (intfg m) h))) else None)) \<and>
   (dge h (htransition m) \<longrightarrow>
      evalDeriv lib m h want_f want_dfdh =
        (if want_f
         then Some (dneg (dmul (fst (snd (pv_E (phasevol m) h)))
                            (fst (snd (spline_eval lib (intf m) h)))))
         else None,
         if want_dfdh
         then Some (dsub (dmul (dneg (snd (snd (spline_eval lib (intf m) h))))
                            (fst (snd (pv_E (phasevol m) h))))
                         (dmul (fst (snd (spline_eval lib (intf m) h)))
                            (snd (snd (pv_E (phasevol m) h)))))
         else None))"
  by (auto simp add: evalDeriv_def Let_def dmul_dneg_left dest: dge_not_dlt)

theorem evalDeriv_branches_witness:
  "dlt (Fin 0) (htransition stub_model) \<and>
   evalDeriv stub_lib stub_model (Fin 0) True True = (Some (Fin 2), Some (Fin 3)) \<and>
   dge (Fin 4) (htransition stub_model) \<and>
   evalDeriv stub_lib stub_model (Fin 4) True True = (Some (Fin (- 50)), Some (Fin (- 95)))"
  using evalDeriv_branches[of "Fin 0" stub_model stub_lib True True]
        evalDeriv_branches[of "Fin 4" stub_model stub_lib True True]
  by (simp add: stub_model_def stub_lib_def stub_phasevol_def dge_def dle_def dsub_def pow_2_def)

text \<open>
  Claim C7: for every Phi < 0, \<open>sampleVelocity\<close> returns a value; when the result of the
  root finder is not >= 0 that value is the sentinel 0; and \<open>sampleVelocity\<close> throws
  exactly when Phi is not strictly negative, the error being \<open>invalid_argument\<close>.
\<close>

theorem sampleVelocity_errors:
  "(dlt Phi (Fin 0) \<longrightarrow> (\<exists>v. sampleVelocity lib m Phi state = Inr v)) \<and>
   (dlt Phi (Fin 0) \<and> \<not> dge (fst (sampleVelocity_root lib m Phi state)) (Fin 0) \<longrightarrow>
      sampleVelocity lib m Phi state =
        Inr (Fin 0, snd (snd (sampleVelocity_root lib m Phi state)))) \<and>
   ((\<exists>e. sampleVelocity lib m Phi state = Inl e) \<longleftrightarrow> \<not> dlt Phi (Fin 0)) \<and>
   (\<not> dlt Phi (Fin 0) \<longrightarrow> sampleVelocity lib m Phi state = Inl (InvalidArgument msg_invalid_Phi))"
  by (auto simp add: sampleVelocity_def Let_def split: prod.splits)

theorem sampleVelocity_errors_witness:
  "dlt (Fin (- 1)) (Fin 0) \<and>
   \<not> dge (fst (sampleVelocity_root stub_lib stub_local (Fin (- 1)) ())) (Fin 0) \<and>
   sampleVelocity stub_lib stub_local (Fin (- 1)) () = Inr (Fin 0, ()) \<and>
   \<not> dlt (Fin 0) (Fin 0) \<and>
   sampleVelocity stub_lib stub_local (Fin 0) () = Inl (InvalidArgument msg_invalid_Phi)"
  using sampleVelocity_errors[of "Fin (- 1)" stub_lib stub_local "()"]
        sampleVelocity_errors[of "Fin 0" stub_lib stub_local "()"]
  by (simp add: sampleVelocity_root_def stub_lib_def Let_def dge_def dle_def)

section \<open>Properties of computeDensity\<close>

lemma computeDensity_j_ok:
  assumes "j < length rs" "rs ! j \<le> x"
  shows "\<exists>s'. computeDensity_j nd (map Fin rs) w (Fin x) weight j st = Inr s'"
  using assms by (simp add: computeDensity_j_def dsub_def dge_def dle_def Let_def)

lemma computeDensity_k_ok:
  assumes i: "i < length rs" and d: "0 < d" and le: "\<And>j. j \<le> i \<Longrightarrow> rs ! j \<le> rs ! i"
  shows "\<exists>s'. computeDensity_k nd lib df pv (map Fin rs) w i (Fin d) k st = Inr s'"
proof -
  let ?y = "GLPOINTS lib GLORDER k"
  have x: "rs ! j \<le> rs ! i + ?y * ?y * d" if "j \<le> i" for j
  proof -
    have "0 \<le> ?y * ?y * d" using d by simp
    with le[OF that] show ?thesis by linarith
  qed
  have "\<exists>s'. for_loop [0 ..< Suc i]
          (computeDensity_j nd (map Fin rs) w (Fin (rs ! i + ?y * ?y * d)) weight) st = Inr s'"
    for weight
  proof (rule for_loop_ok)
    fix j s assume "j \<in> set [0 ..< Suc i]"
    then have ji: "j \<le> i" by auto
    with i have "j < length rs" by simp
    then show "\<exists>s'. computeDensity_j nd (map Fin rs) w (Fin (rs ! i + ?y * ?y * d)) weight j s = Inr s'"
      using x[OF ji] by (rule computeDensity_j_ok)
  qed
  then show ?thesis using i by (simp add: computeDensity_k_def Let_def)
qed

lemma deltaPhi_seg:
  "i < length rs \<Longrightarrow>
   dsub (if i < length (map Fin rs) - 1 then map Fin rs ! (i + 1) else Fin 0) (map Fin rs ! i)
     = Fin (seg rs i)"
  by (simp add: seg_def dsub_def)

lemma computeDensity_i_ok:
  assumes i: "i < length rs" and d: "0 < seg rs i" and le: "\<And>j. j \<le> i \<Longrightarrow> rs ! j \<le> rs ! i"
  shows "\<exists>s'. computeDensity_i nd lib df pv (map Fin rs) w i st = Inr s'"
proof -
  have "\<exists>s'. for_loop [0 ..< GLORDER]
          (computeDensity_k nd lib df pv (map Fin rs) w i (Fin (seg rs i))) st = Inr s'"
    by (rule for_loop_ok) (rule computeDensity_k_ok[OF i d le])
  moreover have "\<not> dle (Fin (seg rs i)) (Fin 0)" using d by (simp add: dle_def)
  ultimately show ?thesis
    unfolding computeDensity_i_def Let_def deltaPhi_seg[OF i] by simp
qed

lemma computeDensity_i_fail:
  assumes i: "i < length rs" and d: "seg rs i \<le> 0"
  shows "computeDensity_i nd lib df pv (map Fin rs) w i st = Inl (RuntimeError computeDensity_msg)"
proof -
  have "dle (Fin (seg rs i)) (Fin 0)" using d by (auto simp add: dle_def)
  then show ?thesis
    unfolding computeDensity_i_def Let_def deltaPhi_seg[OF i] by simp
qed

lemma prefix_increasing:
  assumes pos: "\<And>i. i < p \<Longrightarrow> 0 < seg rs i" and p: "p < length rs" and jk: "j \<le> k" "k \<le> p"
  shows "rs ! j \<le> rs ! k"
  using jk
proof (induction k)
  case 0
  then show ?case by simp
next
  case (Suc k)
  show ?case
  proof (cases "j = Suc k")
    case True
    then show ?thesis by simp
  next
    case False
    with Suc.prems have jk: "j \<le> k" and kp: "k < p" by simp_all
    from kp p have "k < length rs - 1" by arith
    with pos[OF kp] have "rs ! k < rs ! Suc k" by (simp add: seg_def)
    with Suc.IH[OF jk] kp show ?thesis by simp
  qed
qed

lemma computeDensity_rejects:
  assumes v: "i < length rs" "seg rs i \<le> 0"
  shows "computeDensity nd lib df pv (map Fin rs) w = Inl (RuntimeError computeDensity_msg)"
proof -
  define p where "p = (LEAST i. i < length rs \<and> seg rs i \<le> 0)"
  have pv: "p < length rs \<and> seg rs p \<le> 0"
    unfolding p_def using v by (intro LeastI[of "\<lambda>i. i < length rs \<and> seg rs i \<le> 0" i]) simp
  have before: "0 < seg rs k" if "k < p" for k
  proof -
    from that have "\<not> (k < length rs \<and> seg rs k \<le> 0)"
      unfolding p_def by (rule not_less_Least)
    moreover from that pv have "k < length rs" by simp
    ultimately show ?thesis by simp
  qed
  have split: "[0 ..< length rs] = [0 ..< p] @ p # [Suc p ..< length rs]"
  proof -
    have "[0 ..< length rs] = [0 ..< p] @ [p ..< length rs]"
      using pv upt_add_eq_append[of 0 p "length rs - p"] by simp
    then show ?thesis using pv by (simp add: upt_conv_Cons)
  qed
  have ok: "\<exists>s'. computeDensity_i nd lib df pv (map Fin rs) w k s = Inr s'"
    if "k \<in> set [0 ..< p]" for k s
  proof -
    from that have kp: "k < p" by simp
    with pv have kl: "k < length rs" by simp
    have "rs ! j \<le> rs ! k" if "j \<le> k" for j
      using prefix_increasing[of p rs j k] before pv that kp by simp
    with computeDensity_i_ok[OF kl before[OF kp]] show ?thesis by blast
  qed
  have bad: "computeDensity_i nd lib df pv (map Fin rs) w p s = Inl (RuntimeError computeDensity_msg)"
    for s using pv by (simp add: computeDensity_i_fail)
  have "for_loop [0 ..< length rs] (computeDensity_i nd lib df pv (map Fin rs) w) s
          = Inl (RuntimeError computeDensity_msg)" for s
    unfolding split using ok bad by (rule for_loop_fail)
  then show ?thesis by (simp add: computeDensity_def Let_def)
qed

lemma computeDensity_accepts:
  assumes pos: "\<And>i. i < length rs \<Longrightarrow> 0 < seg rs i"
  shows "\<exists>res. computeDensity nd lib df pv (map Fin rs) w = Inr res"
proof -
  have "\<exists>s'. for_loop [0 ..< length rs] (computeDensity_i nd lib df pv (map Fin rs) w) s = Inr s'" for s
  proof (rule for_loop_ok)
    fix k s assume "k \<in> set [0 ..< length rs]"
    then have kl: "k < length rs" by simp
    have "rs ! j \<le> rs ! k" if "j \<le> k" for j
      using prefix_increasing[of k rs j k] pos kl that by simp
    with computeDensity_i_ok[OF kl pos[OF kl]]
    show "\<exists>s'. computeDensity_i nd lib df pv (map Fin rs) w k s = Inr s'" by blast
  qed
  then obtain s' where "for_loop [0 ..< length rs] (computeDensity_i nd lib df pv (map Fin rs) w)
      (replicate (length rs) (Fin 0), if w then replicate (length rs) (Fin 0) else []) = Inr s'"
    by blast
  then show ?thesis by (cases s') (simp add: computeDensity_def Let_def)
qed

lemma not_increasing_seg:
  assumes "\<not> sorted_wrt (<) rs"
  shows "\<exists>i. i < length rs \<and> seg rs i \<le> 0"
proof -
  from assms obtain i where i: "Suc i < length rs" "\<not> rs ! i < rs ! Suc i"
    by (auto simp add: sorted_wrt_iff_nth_Suc_transp)
  from i have "i < length rs - 1" by arith
  with i have "i < length rs \<and> seg rs i \<le> 0" by (simp add: seg_def)
  then show ?thesis ..
qed

text \<open>
  On a grid of finite values that is not strictly increasing, \<open>computeDensity\<close> throws
  the runtime error whose message names the monotonicity of the grid in Phi, with and without
  \<open>NDEBUG\<close>; the grid [-10, -10, -5] is an instance.
\<close>

lemma computeDensity_not_increasing:
  assumes "\<not> sorted_wrt (<) rs"
  shows "computeDensity nd lib df pv (map Fin rs) wantVD = Inl (RuntimeError computeDensity_msg)"
  using not_increasing_seg[OF assms] computeDensity_rejects by blast

lemma computeDensity_example:
  "computeDensity nd lib df pv [Fin (- 10), Fin (- 10), Fin (- 5)] wantVD
     = Inl (RuntimeError computeDensity_msg)"
  using computeDensity_not_increasing[of "[- 10, - 10, - 5]" nd lib df pv wantVD]
  by simp

lemma accepted_grid_negative:
  assumes acc: "computeDensity nd lib df pv (map Fin rs) w = Inr res" and x: "x \<in> set rs"
  shows "x < 0"
proof -
  have pos: "0 < seg rs i" if "i < length rs" for i
  proof (rule ccontr)
    assume "\<not> 0 < seg rs i"
    then have "seg rs i \<le> 0" by simp
    from computeDensity_rejects[OF that this, of nd lib df pv w] acc show False by simp
  qed
  from x obtain j where j: "j < length rs" "x = rs ! j" by (auto simp add: in_set_conv_nth)
  let ?n = "length rs - 1"
  from j have n: "?n < length rs" by simp
  from pos[OF n] have "rs ! ?n < 0" by (simp add: seg_def)
  moreover have "rs ! j \<le> rs ! ?n"
    using prefix_increasing[of ?n rs j ?n] pos j n by simp
  ultimately show ?thesis using j by simp
qed

text \<open>
  On grids of finite values, \<open>computeDensity\<close> also rejects, with the same runtime error,
  every grid whose last element is >= 0, even a strictly increasing one, since the last
  segment runs from the last node to 0; hence every grid of finite values that it accepts
  consists of strictly negative values only.
\<close>

lemma computeDensity_grid_negative:
  "(rs \<noteq> [] \<and> 0 \<le> last rs \<longrightarrow>
      computeDensity nd lib df pv (map Fin rs) wantVD = Inl (RuntimeError computeDensity_msg)) \<and>
   (computeDensity nd lib df pv (map Fin rs) wantVD = Inr res \<longrightarrow> (\<forall>x \<in> set rs. x < 0))"
proof (intro conjI impI ballI)
  assume a: "rs \<noteq> [] \<and> 0 \<le> last rs"
  then have n: "length rs - 1 < length rs" by simp
  from a have "seg rs (length rs - 1) \<le> 0" by (auto simp add: seg_def last_conv_nth)
  with n show "computeDensity nd lib df pv (map Fin rs) wantVD = Inl (RuntimeError computeDensity_msg)"
    by (rule computeDensity_rejects)
next
  fix x assume "computeDensity nd lib df pv (map Fin rs) wantVD = Inr res" "x \<in> set rs"
  then show "x < 0" by (rule accepted_grid_negative)
qed

subsection \<open>Grids with a NaN\<close>

text \<open>
  When \<open>deltaPhi\<close> is NaN the guard \<open>deltaPhi<=0\<close> lets the segment through. Every node
  \<open>Phi\<close> of the quadrature is then NaN, and so is \<open>dif\<close>: without \<open>NDEBUG\<close> the assertion
  fails at the first node, with \<open>NDEBUG\<close> each term is 0 and the loop goes on.
\<close>

lemma dadd_NaN_right: "dadd a NaN = NaN"
  by (cases a) simp_all

lemma computeDensity_k_NaN:
  "computeDensity_k False lib df pv g w i NaN k st = Inl AssertionFailed"
proof -
  have u: "[0 ..< Suc i] = 0 # [1 ..< Suc i]" by (simp add: upt_rec)
  show ?thesis
    unfolding computeDensity_k_def Let_def u
    by (simp add: computeDensity_j_def Let_def dadd_NaN_right dsub_def dge_def dle_def)
qed

lemma computeDensity_i_NaN:
  assumes "dsub (if i < length g - 1 then g ! (i + 1) else Fin 0) (g ! i) = NaN"
  shows "computeDensity_i False lib df pv g w i st = Inl AssertionFailed"
proof -
  have u: "[0 ..< GLORDER] = 0 # [1 ..< GLORDER]" by (simp add: GLORDER_def upt_rec)
  show ?thesis
    unfolding computeDensity_i_def Let_def assms u
    by (simp add: computeDensity_k_NaN dle_def)
qed

lemma computeDensity_first_NaN:
  assumes "g \<noteq> []"
    and "dsub (if 0 < length g - 1 then g ! (0 + 1) else Fin 0) (g ! 0) = NaN"
  shows "computeDensity False lib df pv g w = Inl AssertionFailed"
proof -
  from assms(1) have u: "[0 ..< length g] = 0 # [1 ..< length g]" by (simp add: upt_rec)
  have "computeDensity_i False lib df pv g w 0 st = Inl AssertionFailed" for st
    using assms(2) by (rule computeDensity_i_NaN)
  then show ?thesis
    unfolding computeDensity_def Let_def u by simp
qed

lemma computeDensity_j_ndebug:
  "\<exists>s'. computeDensity_j True g w Phi weight j st = Inr s'"
  by (simp add: computeDensity_j_def Let_def)

lemma computeDensity_k_ndebug:
  "\<exists>s'. computeDensity_k True lib df pv g w i d k st = Inr s'"
  unfolding computeDensity_k_def Let_def
  by (rule for_loop_ok) (rule computeDensity_j_ndebug)

lemma computeDensity_ndebug_accepts:
  assumes "\<And>i. i < length g \<Longrightarrow>
             \<not> dle (dsub (if i < length g - 1 then g ! (i + 1) else Fin 0) (g ! i)) (Fin 0)"
  shows "\<exists>res. computeDensity True lib df pv g w = Inr res"
proof -
  have "\<exists>s'. for_loop [0 ..< length g] (computeDensity_i True lib df pv g w) s = Inr s'" for s
  proof (rule for_loop_ok)
    fix i s assume "i \<in> set [0 ..< length g]"
    then have "i < length g" by simp
    from assms[OF this]
    have e: "computeDensity_i True lib df pv g w i s
        = for_loop [0 ..< GLORDER] (computeDensity_k True lib df pv g w i
            (dsub (if i < length g - 1 then g ! (i + 1) else Fin 0) (g ! i))) s"
      by (simp add: computeDensity_i_def Let_def)
    show "\<exists>s'. computeDensity_i True lib df pv g w i s = Inr s'"
      unfolding e by (rule for_loop_ok) (rule computeDensity_k_ndebug)
  qed
  then obtain s' where "for_loop [0 ..< length g] (computeDensity_i True lib df pv g w)
      (replicate (length g) (Fin 0), if w then replicate (length g) (Fin 0) else []) = Inr s'"
    by blast
  then show ?thesis by (cases s') (simp add: computeDensity_def Let_def)
qed

text \<open>
  Claim C8, at the grid [-10, NaN, -5], which is not strictly increasing: \<open>computeDensity\<close>
  does not throw the runtime error that the claim requires. The first \<open>deltaPhi\<close> is NaN
  and passes the guard; without \<open>NDEBUG\<close> the run ends on the failed assertion
  \<open>assert(dif>=0)\<close>, with \<open>NDEBUG\<close> a density vector is returned.
\<close>

theorem computeDensity_NaN_grid:
  "\<not> dlt (Fin (- 10)) NaN \<and>
   computeDensity False lib df pv [Fin (- 10), NaN, Fin (- 5)] wantVD = Inl AssertionFailed \<and>
   (\<exists>res. computeDensity True lib df pv [Fin (- 10), NaN, Fin (- 5)] wantVD = Inr res)"
proof (intro conjI)
  show "\<not> dlt (Fin (- 10)) NaN" by simp
  show "computeDensity False lib df pv [Fin (- 10), NaN, Fin (- 5)] wantVD = Inl AssertionFailed"
    by (rule computeDensity_first_NaN) (simp_all add: dsub_def)
  show "\<exists>res. computeDensity True lib df pv [Fin (- 10), NaN, Fin (- 5)] wantVD = Inr res"
    by (rule computeDensity_ndebug_accepts) (auto simp add: dsub_def dle_def less_Suc_eq)
qed

text \<open>
  Claim C9, at two grids with a NaN. The grid [NaN, 5] ends with a value >= 0, and without
  \<open>NDEBUG\<close> the run ends on the failed assertion of the first segment, before the guard of
  the last segment is reached: the runtime error of the claim is not thrown. The grid
  [-10, NaN, -5] is accepted with \<open>NDEBUG\<close>, and its second value is not negative.
\<close>

theorem computeDensity_NaN_accepted:
  "dge (last [NaN, Fin 5]) (Fin 0) \<and>
   computeDensity False lib df pv [NaN, Fin 5] wantVD = Inl AssertionFailed \<and>
   (\<exists>res. computeDensity True lib df pv [Fin (- 10), NaN, Fin (- 5)] wantVD = Inr res) \<and>
   \<not> dlt ([Fin (- 10), NaN, Fin (- 5)] ! 1) (Fin 0)"
proof (intro conjI)
  show "dge (last [NaN, Fin 5]) (Fin 0)" by (simp add: dge_def dle_def)
  show "computeDensity False lib df pv [NaN, Fin 5] wantVD = Inl AssertionFailed"
    by (rule computeDensity_first_NaN) (simp_all add: dsub_def)
  show "\<exists>res. computeDensity True lib df pv [Fin (- 10), NaN, Fin (- 5)] wantVD = Inr res"
    by (rule computeDensity_ndebug_accepts) (auto simp add: dsub_def dle_def less_Suc_eq)
  show "\<not> dlt ([Fin (- 10), NaN, Fin (- 5)] ! 1) (Fin 0)" by simp
qed

section \<open>Properties of the constructor of SphericalIsotropicModel\<close>



lemma update_next:
  assumes "length xs = k"
  shows "(xs @ replicate (Suc m) z)[k := v] = (xs @ [v]) @ replicate m z"
  using assms by (simp add: list_update_append)

lemma tabulate_loop:
  assumes ok: "\<And>i. i < k \<Longrightarrow> dge (fn_value df (dexp (g ! i))) (Fin 0)" and k: "k \<le> length g"
  shows "for_loop [0 ..< k] (tabulate_node pv df g)
           \<lparr> gridF = replicate (length g) (Fin 0), gridG = replicate (length g) (Fin 0),
             gridH = replicate (length g) (Fin 0), gridE = replicate (length g) (Fin 0) \<rparr>
         = Inr \<lparr> gridF = map (\<lambda>x. fn_value df (dexp x)) (take k g) @ replicate (length g - k) (Fin 0),
                 gridG = map (\<lambda>x. fst (snd (pv_E pv (dexp x)))) (take k g)
                           @ replicate (length g - k) (Fin 0),
                 gridH = map dexp (take k g) @ replicate (length g - k) (Fin 0),
                 gridE = map (\<lambda>x. fst (pv_E pv (dexp x))) (take k g)
                           @ replicate (length g - k) (Fin 0) \<rparr>"
  using assms
proof (induction k)
  case 0
  show ?case by simp
next
  case (Suc k)
  from Suc.prems have kl: "k < length g" by simp
  then obtain m where m: "length g - k = Suc m" "length g - Suc k = m"
    by (metis Suc_diff_Suc)
  have tk: "take (Suc k) g = take k g @ [g ! k]"
    using kl by (simp add: take_Suc_conv_app_nth)
  have step: "dge (fn_value df (dexp (g ! k))) (Fin 0)" using Suc.prems(1)[of k] by simp
  have IH: "for_loop [0 ..< k] (tabulate_node pv df g)
           \<lparr> gridF = replicate (length g) (Fin 0), gridG = replicate (length g) (Fin 0),
             gridH = replicate (length g) (Fin 0), gridE = replicate (length g) (Fin 0) \<rparr>
         = Inr \<lparr> gridF = map (\<lambda>x. fn_value df (dexp x)) (take k g) @ replicate (Suc m) (Fin 0),
                 gridG = map (\<lambda>x. fst (snd (pv_E pv (dexp x)))) (take k g) @ replicate (Suc m) (Fin 0),
                 gridH = map dexp (take k g) @ replicate (Suc m) (Fin 0),
                 gridE = map (\<lambda>x. fst (pv_E pv (dexp x))) (take k g) @ replicate (Suc m) (Fin 0) \<rparr>"
    using Suc.IH Suc.prems kl m by simp
  have len: "length (map (\<lambda>x. fn_value df (dexp x)) (take k g)) = k"
    "length (map (\<lambda>x. fst (snd (pv_E pv (dexp x)))) (take k g)) = k"
    "length (map dexp (take k g)) = k"
    "length (map (\<lambda>x. fst (pv_E pv (dexp x))) (take k g)) = k"
    using kl by simp_all
  show ?case
    unfolding upt_Suc_append[OF le0] for_loop_append IH
    using step
    by (simp add: tabulate_node_def Let_def update_next[OF len(1)] update_next[OF len(2)]
        update_next[OF len(3)] update_next[OF len(4)] m tk del: replicate_Suc)
qed

lemma tabulate_nodes_value:
  assumes "\<And>i. i < length g \<Longrightarrow> dge (fn_value df (dexp (g ! i))) (Fin 0)"
  shows "tabulate_nodes pv df g
         = Inr \<lparr> gridF = map (\<lambda>x. fn_value df (dexp x)) g,
                 gridG = map (\<lambda>x. fst (snd (pv_E pv (dexp x)))) g,
                 gridH = map dexp g,
                 gridE = map (\<lambda>x. fst (pv_E pv (dexp x))) g \<rparr>"
  using tabulate_loop[of "length g" df g pv] assms
  by (simp add: tabulate_nodes_def Let_def)










lemma htransition_loop_spec:
  assumes "i \<ge> 1" "ht = gH ! (i - 1)"
  shows "\<exists>k. htransition_loop gH FGint M i ht = gH ! k \<and> i - 1 \<le> k \<and>
           (\<forall>j. i \<le> j \<and> j \<le> k \<longrightarrow>
              j < length gH - 1 \<and> dlt (FGint ! (j + 1)) (dmul M (Fin (999 / 1000)))) \<and>
           \<not> (k + 1 < length gH - 1 \<and> dlt (FGint ! (k + 2)) (dmul M (Fin (999 / 1000))))"
  using assms
proof (induction gH FGint M i ht rule: htransition_loop.induct)
  case (1 gH FGint M i ht)
  show ?case
  proof (cases "i < length gH - 1 \<and> dlt (FGint ! (i + 1)) (dmul M (Fin (999 / 1000)))")
    case True
    from "1.IH"[OF True] obtain k where
      k: "htransition_loop gH FGint M (i + 1) (gH ! i) = gH ! k" "i \<le> k"
         "\<forall>j. i + 1 \<le> j \<and> j \<le> k \<longrightarrow>
              j < length gH - 1 \<and> dlt (FGint ! (j + 1)) (dmul M (Fin (999 / 1000)))"
         "\<not> (k + 1 < length gH - 1 \<and> dlt (FGint ! (k + 2)) (dmul M (Fin (999 / 1000))))"
      by auto
    have run: "\<forall>j. i \<le> j \<and> j \<le> k \<longrightarrow>
              j < length gH - 1 \<and> dlt (FGint ! (j + 1)) (dmul M (Fin (999 / 1000)))"
    proof (intro allI impI)
      fix j assume j: "i \<le> j \<and> j \<le> k"
      show "j < length gH - 1 \<and> dlt (FGint ! (j + 1)) (dmul M (Fin (999 / 1000)))"
      proof (cases "j = i")
        case True
        with \<open>i < length gH - 1 \<and> dlt (FGint ! (i + 1)) (dmul M (Fin (999 / 1000)))\<close>
        show ?thesis by simp
      next
        case False
        with j have "i + 1 \<le> j \<and> j \<le> k" by simp
        with k(3) show ?thesis by blast
      qed
    qed
    have "htransition_loop gH FGint M i ht = gH ! k"
      using True k(1) by (subst htransition_loop.simps) simp
    moreover have "i - 1 \<le> k" using k(2) by simp
    ultimately show ?thesis using run k(4) by blast
  next
    case False
    have "htransition_loop gH FGint M i ht = gH ! (i - 1)"
      using False "1.prems"(2) by (subst htransition_loop.simps) auto
    moreover have "\<not> ((i - 1) + 1 < length gH - 1 \<and>
        dlt (FGint ! ((i - 1) + 2)) (dmul M (Fin (999 / 1000))))"
      using False "1.prems"(1) by (simp add: numeral_2_eq_2)
    ultimately show ?thesis
      using "1.prems"(1) by (intro exI[of _ "i - 1"]) auto
  qed
qed

lemma find_htransition_spec:
  "\<exists>k. find_htransition gH FGint M = gH ! k \<and>
        (\<forall>j. 1 \<le> j \<and> j \<le> k \<longrightarrow>
           j < length gH - 1 \<and> dlt (FGint ! (j + 1)) (dmul M (Fin (999 / 1000)))) \<and>
        \<not> (k + 1 < length gH - 1 \<and> dlt (FGint ! (k + 2)) (dmul M (Fin (999 / 1000))))"
  using htransition_loop_spec[of 1 "gH ! 0" gH FGint M]
  by (auto simp add: find_htransition_def)

lemma htransition_loop_stop:
  "\<not> (i < length gH - 1 \<and> dlt (FGint ! (i + 1)) (dmul M (Fin (999 / 1000))))
     \<Longrightarrow> htransition_loop gH FGint M i ht = ht"
  by (subst htransition_loop.simps) auto

lemma htransition_loop_step:
  "i < length gH - 1 \<and> dlt (FGint ! (i + 1)) (dmul M (Fin (999 / 1000)))
     \<Longrightarrow> htransition_loop gH FGint M i ht = htransition_loop gH FGint M (i + 1) (gH ! i)"
  by (subst htransition_loop.simps) auto

text \<open>
  The loop looks one node ahead: on the grid 1, 2, 3, 4 with FGint = 0.1, 0.5, 0.9, 1 and
  totalMass = 1 it ends with htransition = 2, although the larger grid value 3 also
  has FGint = 0.9 < 0.999.
\<close>

lemma htransition_loop_example:
  "find_htransition [Fin 1, Fin 2, Fin 3, Fin 4]
      [Fin (1 / 10), Fin (1 / 2), Fin (9 / 10), Fin 1] (Fin 1) = Fin 2 \<and>
   [Fin 1, Fin 2, Fin 3, Fin 4] ! 2 = Fin 3 \<and>
   dlt ([Fin (1 / 10), Fin (1 / 2), Fin (9 / 10), Fin 1] ! 2) (dmul (Fin 1) (Fin (999 / 1000))) \<and>
   dlt (Fin 2) (Fin 3)"
proof -
  have a: "htransition_loop [Fin 1, Fin 2, Fin 3, Fin 4]
      [Fin (1 / 10), Fin (1 / 2), Fin (9 / 10), Fin 1] (Fin 1) 1 (Fin 1)
     = htransition_loop [Fin 1, Fin 2, Fin 3, Fin 4]
      [Fin (1 / 10), Fin (1 / 2), Fin (9 / 10), Fin 1] (Fin 1) (1 + 1) (Fin 2)"
    by (subst htransition_loop_step) simp_all
  have b: "htransition_loop [Fin 1, Fin 2, Fin 3, Fin 4]
      [Fin (1 / 10), Fin (1 / 2), Fin (9 / 10), Fin 1] (Fin 1) (1 + 1) (Fin 2) = Fin 2"
    by (rule htransition_loop_stop) simp
  show ?thesis using a b by (simp add: find_htransition_def)
qed

text \<open>A complete run of the constructor, on the DF \<open>(1+h)^-2\<close> and the grid 1/4, 1, 4, 16.\<close>

lemma ln_quarter: "ln (1 / 4 :: real) = - ln 4"
  by (simp add: ln_div)

lemma ln16_4: "ln (16::real) = 2 * ln 4"
  using ln_realpow[of 4 2] by simp

lemma ln4_ge: "7 / 10 \<le> ln (4::real)"
proof -
  have "exp (7 / 10 :: real) \<le> 1 + 7 / 10 + (7 / 10)\<^sup>2"
    by (rule exp_bound) simp_all
  also have "\<dots> \<le> 4" by (simp add: power2_eq_square)
  finally have "exp (7 / 10 :: real) \<le> 4" .
  then show ?thesis by (subst ln_ge_iff) simp_all
qed

lemma cored_grid:
  "make_gridLogH stub_lib cored_df [Fin (1 / 4), Fin 1, Fin 4, Fin 16]
     = [Fin (- ln 4), Fin 0, Fin (ln 4), Fin (2 * ln 4)]"
  by (simp add: make_gridLogH_def ln_quarter ln16_4)

lemma exp_grid: "exp (- ln (4::real)) = 1 / 4" "exp (2 * ln (4::real)) = 16"
proof -
  show "exp (- ln (4::real)) = 1 / 4" by (simp add: exp_minus)
  have "exp (ln (4::real) + ln 4) = exp (ln 4) * exp (ln 4)" by (rule exp_add)
  moreover have "ln (4::real) + ln 4 = 2 * ln 4" by simp
  ultimately have "exp (2 * ln (4::real)) = exp (ln 4) * exp (ln 4)" by simp
  then show "exp (2 * ln (4::real)) = 16" by simp
qed

lemma cored_nodes:
  "tabulate_nodes stub_phasevol cored_df [Fin (- ln 4), Fin 0, Fin (ln 4), Fin (2 * ln 4)] =
     Inr \<lparr> gridF = [Fin (16 / 25), Fin (1 / 4), Fin (1 / 25), Fin (1 / 289)],
           gridG = [Fin (25 / 16), Fin 4, Fin 25, Fin 289],
           gridH = [Fin (1 / 4), Fin 1, Fin 4, Fin 16],
           gridE = [Fin (- 4 / 5), Fin (- 1 / 2), Fin (- 1 / 5), Fin (- 1 / 17)] \<rparr>"
  by (simp add: tabulate_nodes_def tabulate_node_def upt_rec Let_def cored_df_def
        stub_phasevol_def dge_def dle_def pow_2_def exp_grid)

lemma cored_asymptotic_F:
  "asymptotic_F cored_df [Fin (- ln 4), Fin 0, Fin (ln 4), Fin (2 * ln 4)]
     \<lparr> gridF = [Fin (16 / 25), Fin (1 / 4), Fin (1 / 25), Fin (1 / 289)],
       gridG = [Fin (25 / 16), Fin 4, Fin 25, Fin 289],
       gridH = [Fin (1 / 4), Fin 1, Fin 4, Fin 16],
       gridE = [Fin (- 4 / 5), Fin (- 1 / 2), Fin (- 1 / 5), Fin (- 1 / 17)] \<rparr>
   = Inr ([Fin (16 / 25), Fin (1 / 4), Fin (1 / 25), Fin (1 / 289)], Fin (- 2 / 5), Fin (- 32 / 17))"
  by (simp add: asymptotic_F_def innerFslope_inferred_def outerFslope_inferred_def Let_def
        cored_df_def pow_3_def dle_def dgt_def MIN_VALUE_ROUNDOFF_def)

lemma cored_asymptotic_E:
  "asymptotic_E stub_phasevol
     \<lparr> gridF = [Fin (16 / 25), Fin (1 / 4), Fin (1 / 25), Fin (1 / 289)],
       gridG = [Fin (25 / 16), Fin 4, Fin 25, Fin 289],
       gridH = [Fin (1 / 4), Fin 1, Fin 4, Fin 16],
       gridE = [Fin (- 4 / 5), Fin (- 1 / 2), Fin (- 1 / 5), Fin (- 1 / 17)] \<rparr>
     (Fin (- 2 / 5)) (Fin (- 32 / 17))
   = Inr \<lparr> Phi0 = Fin (- 1), innerE = Fin (1 / 5), outerE = Fin (- 1 / 17),
           innerEslope = Fin (4 / 5), outerEslope = Fin (- 16 / 17), outerRatio = Fin 2 \<rparr>"
  by (simp add: asymptotic_E_def Let_def stub_phasevol_def dsub_def dgt_def)

lemma ln4_not_less: "\<not> ln (4::real) < 7 / 10" "\<not> ln (4::real) * 10 < 7"
  using ln4_ge by simp_all

lemma cored_integrals:
  "integrate_segments stub_lib stub_phasevol cored_df
     [Fin (- ln 4), Fin 0, Fin (ln 4), Fin (2 * ln 4)]
   = Inr \<lparr> gridFint = [Fin (1 / 16 * ln 4), Fin (4 / 625 * ln 4), Fin (16 / 83521 * ln 4), Fin 0],
           gridFGint = [Fin 0, Fin (1 / 4 * ln 4), Fin (4 / 25 * ln 4), Fin (16 / 289 * ln 4)],
           gridFHint = [Fin 0, Fin (1 / 16 * ln 4), Fin (16 / 625 * ln 4), Fin (256 / 83521 * ln 4)],
           gridFEint = [Fin 0, Fin (1 / 8 * ln 4), Fin (4 / 125 * ln 4), Fin (16 / 4913 * ln 4)] \<rparr>"
  by (simp add: integrate_segments_def integrate_segment_def integrate_node_def upt_rec Let_def
        GLDELTA_def GLORDER1_def GLORDER2_def stub_lib_def stub_phasevol_def cored_df_def
        dsub_def dge_def dle_def pow_2_def exp_grid ln4_not_less)

lemma ln4_pos: "0 < ln (4::real)"
  by simp

lemma cored_FGint:
  "accumulate_FGint [Fin (16 / 25), Fin (1 / 4), Fin (1 / 25), Fin (1 / 289)]
     [Fin (1 / 4), Fin 1, Fin 4, Fin 16] (Fin (- 2 / 5)) (Fin (- 32 / 17))
     [Fin 0, Fin (1 / 4 * ln 4), Fin (4 / 25 * ln 4), Fin (16 / 289 * ln 4)]
   = [Fin (4 / 15), Fin (4 / 15 + 1 / 4 * ln 4), Fin (4 / 15 + 41 / 100 * ln 4),
      Fin (28 / 85 + 13449 / 28900 * ln 4)]"
  by (simp add: accumulate_FGint_def running_sum_def upt_rec Let_def dsub_def)

lemma below_linear:
  "0 < (L::real) \<Longrightarrow> 4 / 15 + 41 / 100 * L < (28 / 85 + 13449 / 28900 * L) * (999 / 1000)"
  by (simp add: algebra_simps)

lemma mass_linear: "0 < (L::real) \<Longrightarrow> 0 < 28 / 85 + 13449 / 28900 * L"
  by (simp add: add_pos_pos)

lemma not_below_self: "0 < (M::real) \<Longrightarrow> \<not> M < M * (999 / 1000)"
  by simp

lemma cored_below:
  "4 / 15 + 41 / 100 * ln (4::real) < (28 / 85 + 13449 / 28900 * ln 4) * (999 / 1000)"
  using ln4_pos by (rule below_linear)

lemma cored_mass_pos: "0 < 28 / 85 + 13449 / 28900 * ln (4::real)"
  using ln4_pos by (rule mass_linear)

lemma cored_not_below:
  "\<not> 28 / 85 + 13449 / 28900 * ln (4::real) < (28 / 85 + 13449 / 28900 * ln 4) * (999 / 1000)"
  using cored_mass_pos by (rule not_below_self)

lemma cored_htransition:
  "find_htransition [Fin (1 / 4), Fin 1, Fin 4, Fin 16]
     [Fin (4 / 15), Fin (4 / 15 + 1 / 4 * ln 4), Fin (4 / 15 + 41 / 100 * ln 4),
      Fin (28 / 85 + 13449 / 28900 * ln 4)] (Fin (28 / 85 + 13449 / 28900 * ln 4)) = Fin 1"
proof -
  let ?gH = "[Fin (1 / 4), Fin 1, Fin 4, Fin 16]"
  let ?FG = "[Fin (4 / 15), Fin (4 / 15 + 1 / 4 * ln 4), Fin (4 / 15 + 41 / 100 * ln 4),
      Fin (28 / 85 + 13449 / 28900 * ln 4)]"
  let ?M = "Fin (28 / 85 + 13449 / 28900 * ln 4)"
  have a: "htransition_loop ?gH ?FG ?M 1 (Fin (1 / 4)) = htransition_loop ?gH ?FG ?M (1 + 1) (?gH ! 1)"
    using cored_below by (subst htransition_loop.simps) (simp add: numeral_2_eq_2)
  have b: "htransition_loop ?gH ?FG ?M (1 + 1) (?gH ! 1) = Fin 1"
    using cored_not_below by (subst htransition_loop.simps) (simp add: numeral_3_eq_3)
  show ?thesis using a b by (simp add: find_htransition_def)
qed

lemma cored_htransition_last:
  "find_htransition [Fin (1 / 4), Fin 1, Fin 4, Fin 16]
     [Fin (4 / 15), Fin (4 / 15 + 1 / 4 * ln 4), Fin (4 / 15 + 41 / 100 * ln 4),
      Fin (28 / 85 + 13449 / 28900 * ln 4)]
     (last [Fin (4 / 15), Fin (4 / 15 + 1 / 4 * ln 4), Fin (4 / 15 + 41 / 100 * ln 4),
      Fin (28 / 85 + 13449 / 28900 * ln 4)]) = Fin 1"
  using cored_htransition by simp

lemma cored_model:
  "\<exists>m. SphericalIsotropicModel_new stub_lib stub_phasevol cored_df
          [Fin (1 / 4), Fin 1, Fin 4, Fin 16] = Inr m \<and>
        sp_x (intfg m) = [Fin (1 / 4), Fin 1, Fin 4, Fin 16] \<and>
        sp_val (intfg m) = [Fin (4 / 15), Fin (4 / 15 + 1 / 4 * ln 4),
                            Fin (4 / 15 + 41 / 100 * ln 4), Fin (28 / 85 + 13449 / 28900 * ln 4)] \<and>
        totalMass m = Fin (28 / 85 + 13449 / 28900 * ln 4) \<and>
        htransition m = Fin 1"
  unfolding SphericalIsotropicModel_new_def Let_def
  apply (simp only: cored_grid cored_nodes sum.case cored_asymptotic_F prod.case
      cored_asymptotic_E cored_integrals node_values.simps integrals.simps cored_FGint
      cored_htransition_last)
  using cored_mass_pos
  apply (simp add: accumulate_Fint_def accumulate_FHint_def accumulate_FEint_def running_sum_def
      upt_rec derivs_ok_def dgt_def dge_def dle_def dsub_def pow_2_def Let_def)
  done

text \<open>
  Claim C3 as stated fails on a constructed model: for the DF \<open>(1+h)^-2\<close> on the grid
  1/4, 1, 4, 16 the constructor succeeds with htransition = 1, although the larger grid
  value 4 (node 2) also has FGint below 0.999 * totalMass.
\<close>

theorem htransition_not_largest:
  "\<not> isl (SphericalIsotropicModel_new stub_lib stub_phasevol cored_df
            [Fin (1 / 4), Fin 1, Fin 4, Fin 16]) \<and>
   htransition (projr (SphericalIsotropicModel_new stub_lib stub_phasevol cored_df
                         [Fin (1 / 4), Fin 1, Fin 4, Fin 16])) = Fin 1 \<and>
   sp_x (intfg (projr (SphericalIsotropicModel_new stub_lib stub_phasevol cored_df
                         [Fin (1 / 4), Fin 1, Fin 4, Fin 16]))) ! 2 = Fin 4 \<and>
   dlt (Fin 1) (Fin 4) \<and>
   dlt (sp_val (intfg (projr (SphericalIsotropicModel_new stub_lib stub_phasevol cored_df
                                [Fin (1 / 4), Fin 1, Fin 4, Fin 16]))) ! 2)
       (dmul (totalMass (projr (SphericalIsotropicModel_new stub_lib stub_phasevol cored_df
                                  [Fin (1 / 4), Fin 1, Fin 4, Fin 16])))
          (Fin (999 / 1000)))"
proof -
  from cored_model obtain m where
    m: "SphericalIsotropicModel_new stub_lib stub_phasevol cored_df
          [Fin (1 / 4), Fin 1, Fin 4, Fin 16] = Inr m"
       "sp_x (intfg m) = [Fin (1 / 4), Fin 1, Fin 4, Fin 16]"
       "sp_val (intfg m) = [Fin (4 / 15), Fin (4 / 15 + 1 / 4 * ln 4),
                            Fin (4 / 15 + 41 / 100 * ln 4), Fin (28 / 85 + 13449 / 28900 * ln 4)]"
       "totalMass m = Fin (28 / 85 + 13449 / 28900 * ln 4)"
       "htransition m = Fin 1"
    by blast
  have "dlt (Fin (4 / 15 + 41 / 100 * ln 4))
          (dmul (Fin (28 / 85 + 13449 / 28900 * ln 4)) (Fin (999 / 1000)))"
    using cored_below by simp
  with m show ?thesis by (simp add: numeral_2_eq_2)
qed

lemma constructor_result:
  assumes "SphericalIsotropicModel_new lib pv df gridh = Inr m"
  shows "htransition m = find_htransition (sp_x (intfg m)) (sp_val (intfg m)) (totalMass m) \<and>
         totalMass m = last (sp_val (intfg m)) \<and> dgt (totalMass m) (Fin 0) \<and> phasevol m = pv"
  using assms
  by (auto simp add: SphericalIsotropicModel_new_def Let_def split: sum.splits prod.splits if_splits)

text \<open>
  Claim C3, as amended: after a successful construction, \<open>htransition\<close> is the grid value
  \<open>gridH[k]\<close> for the largest k such that every node \<open>i = 1 .. k\<close> lies before the last
  node and has \<open>FGint(h_(i+1)) < 0.999 * totalMass\<close>: the loop tests the node after the
  candidate, and never the nodes 0 and 1. The nodes and the values of FGint are those held
  by the spline \<open>intfg\<close>.
\<close>

theorem htransition_characterised:
  assumes "SphericalIsotropicModel_new lib pv df gridh = Inr m"
  shows "\<exists>k. htransition m = sp_x (intfg m) ! k \<and>
        (\<forall>j. 1 \<le> j \<and> j \<le> k \<longrightarrow>
           j < length (sp_x (intfg m)) - 1 \<and>
           dlt (sp_val (intfg m) ! (j + 1)) (dmul (totalMass m) (Fin (999 / 1000)))) \<and>
        \<not> (k + 1 < length (sp_x (intfg m)) - 1 \<and>
           dlt (sp_val (intfg m) ! (k + 2)) (dmul (totalMass m) (Fin (999 / 1000))))"
proof -
  from constructor_result[OF assms]
  have "htransition m = find_htransition (sp_x (intfg m)) (sp_val (intfg m)) (totalMass m)"
    by simp
  with find_htransition_spec[of "sp_x (intfg m)" "sp_val (intfg m)" "totalMass m"]
  show ?thesis by simp
qed

theorem htransition_characterised_witness:
  "\<exists>m. SphericalIsotropicModel_new stub_lib stub_phasevol cored_df
          [Fin (1 / 4), Fin 1, Fin 4, Fin 16] = Inr m \<and>
        sp_x (intfg m) = [Fin (1 / 4), Fin 1, Fin 4, Fin 16] \<and>
        htransition m = sp_x (intfg m) ! 1 \<and>
        dlt (sp_val (intfg m) ! 2) (dmul (totalMass m) (Fin (999 / 1000))) \<and>
        \<not> dlt (sp_val (intfg m) ! 3) (dmul (totalMass m) (Fin (999 / 1000)))"
proof -
  from cored_model obtain m where
    m: "SphericalIsotropicModel_new stub_lib stub_phasevol cored_df
          [Fin (1 / 4), Fin 1, Fin 4, Fin 16] = Inr m"
       "sp_x (intfg m) = [Fin (1 / 4), Fin 1, Fin 4, Fin 16]" "htransition m = Fin 1"
    by blast
  from htransition_characterised[OF m(1)] obtain k where
    k: "htransition m = sp_x (intfg m) ! k"
       "\<forall>j. 1 \<le> j \<and> j \<le> k \<longrightarrow>
           j < length (sp_x (intfg m)) - 1 \<and>
           dlt (sp_val (intfg m) ! (j + 1)) (dmul (totalMass m) (Fin (999 / 1000)))"
       "\<not> (k + 1 < length (sp_x (intfg m)) - 1 \<and>
           dlt (sp_val (intfg m) ! (k + 2)) (dmul (totalMass m) (Fin (999 / 1000))))"
    by blast
  have k3: "k < 3"
  proof (rule ccontr)
    assume "\<not> k < 3"
    then have "1 \<le> (3::nat) \<and> 3 \<le> k" by simp
    with k(2) have "3 < length (sp_x (intfg m)) - 1" by blast
    then show False by (simp add: m(2))
  qed
  have "k = 1"
  proof -
    from k3 have "k = 0 \<or> k = 1 \<or> k = 2" by auto
    then show ?thesis using k(1) m(2) m(3) by auto
  qed
  with k(2) have "dlt (sp_val (intfg m) ! (1 + 1)) (dmul (totalMass m) (Fin (999 / 1000)))"
    by blast
  moreover from \<open>k = 1\<close> k(3) m(2)
  have "\<not> dlt (sp_val (intfg m) ! (1 + 2)) (dmul (totalMass m) (Fin (999 / 1000)))"
    by simp
  ultimately show ?thesis using m \<open>k = 1\<close> k(1) by (auto simp add: numeral_2_eq_2 numeral_3_eq_3)
qed

section \<open>The cumulative mass at the nodes\<close>

lemma grows_refl: "grows x x"
  by (simp add: grows_def)

lemma grows_trans: "grows x y \<Longrightarrow> grows y z \<Longrightarrow> grows x z"
  unfolding grows_def by (metis order_trans)

lemma grows_dadd:
  assumes "\<And>c'. c = Fin c' \<Longrightarrow> 0 \<le> c'"
  shows "grows x (dadd x c)"
  using assms by (cases x; cases c) (auto simp add: grows_def)

lemma integrand_nonneg:
  assumes f: "dge f (Fin 0)" and h: "0 < h" and w: "0 \<le> w"
    and c: "dmul (dmul f (Fin h)) (Fin w) = Fin c"
  shows "0 \<le> c"
  using assms by (cases f) (auto simp add: dge_def dle_def split: if_splits)

lemma integrate_node_Inr:
  assumes "integrate_node lib pv df g i dlogh glorder k a = Inr a'"
  shows "dge (fn_value df (dexp (dadd (g ! (i - 1)) (dmul dlogh (Fin (GLPOINTS lib glorder k))))))
           (Fin 0) \<and>
         gridFGint a' = (gridFGint a)[i := dadd (gridFGint a ! i)
           (dmul (dmul (fn_value df (dexp (dadd (g ! (i - 1))
                                       (dmul dlogh (Fin (GLPOINTS lib glorder k))))))
                   (dexp (dadd (g ! (i - 1)) (dmul dlogh (Fin (GLPOINTS lib glorder k))))))
              (dmul (Fin (GLWEIGHTS lib glorder k)) dlogh))]"
proof (cases "dge (fn_value df (dexp (dadd (g ! (i - 1)) (dmul dlogh (Fin (GLPOINTS lib glorder k))))))
           (Fin 0)")
  case True
  with assms show ?thesis
    unfolding integrate_node_def Let_def by (simp del: dadd.simps dmul.simps dexp.simps, fastforce)
next
  case False
  with assms show ?thesis
    unfolding integrate_node_def Let_def by simp
qed

lemma integrate_node_FG:
  assumes ok: "integrate_node lib pv df g i (Fin d) glorder k a = Inr a'"
    and d: "0 \<le> d" and w: "0 \<le> GLWEIGHTS lib glorder k" and l: "g ! (i - 1) = Fin l"
  shows "length (gridFGint a') = length (gridFGint a) \<and>
         (\<forall>j. j \<noteq> i \<longrightarrow> gridFGint a' ! j = gridFGint a ! j) \<and>
         (i < length (gridFGint a) \<longrightarrow> grows (gridFGint a ! i) (gridFGint a' ! i))"
proof -
  let ?h = "exp (l + d * GLPOINTS lib glorder k)"
  let ?f = "fn_value df (Fin ?h)"
  let ?c = "dmul (dmul ?f (Fin ?h)) (Fin (GLWEIGHTS lib glorder k * d))"
  have e: "dexp (dadd (g ! (i - 1)) (dmul (Fin d) (Fin (GLPOINTS lib glorder k)))) = Fin ?h"
    unfolding l by simp
  have wd: "dmul (Fin (GLWEIGHTS lib glorder k)) (Fin d) = Fin (GLWEIGHTS lib glorder k * d)"
    by simp
  note r = integrate_node_Inr[OF ok, unfolded e wd]
  from r have f: "dge ?f (Fin 0)" by (rule conjunct1)
  from r have FG: "gridFGint a' = (gridFGint a)[i := dadd (gridFGint a ! i) ?c]"
    by (rule conjunct2)
  have wpos: "0 \<le> GLWEIGHTS lib glorder k * d" using d w by simp
  have hpos: "0 < ?h" by simp
  have "\<And>c'. ?c = Fin c' \<Longrightarrow> 0 \<le> c'"
    by (rule integrand_nonneg[OF f hpos wpos])
  then have "grows (gridFGint a ! i) (dadd (gridFGint a ! i) ?c)" by (rule grows_dadd)
  then show ?thesis unfolding FG by simp
qed

lemma integrate_nodes_FG:
  assumes ok: "for_loop ks (integrate_node lib pv df g i (Fin d) glorder) a = Inr a'"
    and d: "0 \<le> d" and w: "\<And>k. k \<in> set ks \<Longrightarrow> 0 \<le> GLWEIGHTS lib glorder k"
    and l: "g ! (i - 1) = Fin l"
  shows "length (gridFGint a') = length (gridFGint a) \<and>
         (\<forall>j. j \<noteq> i \<longrightarrow> gridFGint a' ! j = gridFGint a ! j) \<and>
         (i < length (gridFGint a) \<longrightarrow> grows (gridFGint a ! i) (gridFGint a' ! i))"
  using ok w
proof (induction ks arbitrary: a)
  case Nil
  then show ?case by (simp add: grows_refl)
next
  case (Cons k ks)
  from Cons.prems(1) obtain a1 where
    a1: "integrate_node lib pv df g i (Fin d) glorder k a = Inr a1"
    and rest: "for_loop ks (integrate_node lib pv df g i (Fin d) glorder) a1 = Inr a'"
    by (auto split: sum.splits)
  from integrate_node_FG[OF a1 d _ l] Cons.prems(2)
  have s1: "length (gridFGint a1) = length (gridFGint a)"
    "\<forall>j. j \<noteq> i \<longrightarrow> gridFGint a1 ! j = gridFGint a ! j"
    "i < length (gridFGint a) \<longrightarrow> grows (gridFGint a ! i) (gridFGint a1 ! i)"
    by simp_all
  from Cons.IH[OF rest] Cons.prems(2)
  have s2: "length (gridFGint a') = length (gridFGint a1)"
    "\<forall>j. j \<noteq> i \<longrightarrow> gridFGint a' ! j = gridFGint a1 ! j"
    "i < length (gridFGint a1) \<longrightarrow> grows (gridFGint a1 ! i) (gridFGint a' ! i)"
    by simp_all
  from s1 s2 show ?case by (auto intro: grows_trans)
qed

lemma integrate_segment_FG:
  assumes ok: "integrate_segment lib pv df (map Fin ls) i a = Inr a'"
    and i: "1 \<le> i" "i < length ls" and up: "ls ! (i - 1) \<le> ls ! i"
    and w: "\<And>k. 0 \<le> GLWEIGHTS lib GLORDER1 k \<and> 0 \<le> GLWEIGHTS lib GLORDER2 k"
  shows "length (gridFGint a') = length (gridFGint a) \<and>
         (\<forall>j. j \<noteq> i \<longrightarrow> gridFGint a' ! j = gridFGint a ! j) \<and>
         (i < length (gridFGint a) \<longrightarrow> grows (gridFGint a ! i) (gridFGint a' ! i))"
proof -
  let ?d = "ls ! i - ls ! (i - 1)"
  let ?o = "if dlt (Fin ?d) GLDELTA then GLORDER1 else GLORDER2"
  from i have i1: "i - 1 < length ls" by simp
  have dl: "dsub (map Fin ls ! i) (map Fin ls ! (i - 1)) = Fin ?d"
    using i i1 by (simp add: dsub_def)
  from ok have loop: "for_loop [0 ..< ?o] (integrate_node lib pv df (map Fin ls) i (Fin ?d) ?o) a = Inr a'"
    unfolding integrate_segment_def Let_def dl .
  have d: "0 \<le> ?d" using up by simp
  have l: "map Fin ls ! (i - 1) = Fin (ls ! (i - 1))" using i1 by simp
  have wk: "\<And>k. k \<in> set [0 ..< ?o] \<Longrightarrow> 0 \<le> GLWEIGHTS lib ?o k" using w by simp
  from integrate_nodes_FG[OF loop d wk l] show ?thesis .
qed

lemma integrate_segments_loop:
  assumes ok: "for_loop is (integrate_segment lib pv df (map Fin ls)) a = Inr a'"
    and i: "\<And>i. i \<in> set is \<Longrightarrow> 1 \<le> i \<and> i < length ls \<and> ls ! (i - 1) \<le> ls ! i"
    and w: "\<And>k. 0 \<le> GLWEIGHTS lib GLORDER1 k \<and> 0 \<le> GLWEIGHTS lib GLORDER2 k"
  shows "length (gridFGint a') = length (gridFGint a) \<and>
         (\<forall>j. j \<notin> set is \<longrightarrow> gridFGint a' ! j = gridFGint a ! j) \<and>
         (\<forall>j < length (gridFGint a). grows (gridFGint a ! j) (gridFGint a' ! j))"
  using ok i
proof (induction "is" arbitrary: a)
  case Nil
  then show ?case by (simp add: grows_refl)
next
  case (Cons i "is")
  from Cons.prems(1) obtain a1 where
    a1: "integrate_segment lib pv df (map Fin ls) i a = Inr a1"
    and rest: "for_loop is (integrate_segment lib pv df (map Fin ls)) a1 = Inr a'"
    by (auto split: sum.splits)
  from Cons.prems(2)[of i] have ii: "1 \<le> i" "i < length ls" "ls ! (i - 1) \<le> ls ! i" by simp_all
  from integrate_segment_FG[OF a1 ii w]
  have s1: "length (gridFGint a1) = length (gridFGint a)"
    "\<forall>j. j \<noteq> i \<longrightarrow> gridFGint a1 ! j = gridFGint a ! j"
    "i < length (gridFGint a) \<longrightarrow> grows (gridFGint a ! i) (gridFGint a1 ! i)"
    by simp_all
  from Cons.IH[OF rest] Cons.prems(2)
  have s2: "length (gridFGint a') = length (gridFGint a1)"
    "\<forall>j. j \<notin> set is \<longrightarrow> gridFGint a' ! j = gridFGint a1 ! j"
    "\<forall>j < length (gridFGint a1). grows (gridFGint a1 ! j) (gridFGint a' ! j)"
    by simp_all
  have g1: "grows (gridFGint a ! j) (gridFGint a1 ! j)" if "j < length (gridFGint a)" for j
  proof (cases "j = i")
    case True
    with s1(3) that show ?thesis by simp
  next
    case False
    with s1(2) show ?thesis by (simp add: grows_refl)
  qed
  have "grows (gridFGint a ! j) (gridFGint a' ! j)" if "j < length (gridFGint a)" for j
    using g1[OF that] s2(3) s1(1) that grows_trans by metis
  with s1 s2 show ?case by simp
qed

lemma integrate_segments_FG:
  assumes ok: "integrate_segments lib pv df (map Fin ls) = Inr a"
    and up: "sorted_wrt (<) ls"
    and w: "\<And>k. 0 \<le> GLWEIGHTS lib GLORDER1 k \<and> 0 \<le> GLWEIGHTS lib GLORDER2 k"
  shows "length (gridFGint a) = length ls \<and>
         (0 < length ls \<longrightarrow> gridFGint a ! 0 = Fin 0) \<and>
         (\<forall>j < length ls. grows (Fin 0) (gridFGint a ! j))"
proof -
  let ?z = "\<lparr> gridFint = replicate (length ls) (Fin 0), gridFGint = replicate (length ls) (Fin 0),
              gridFHint = replicate (length ls) (Fin 0), gridFEint = replicate (length ls) (Fin 0) \<rparr>"
  from ok have loop: "for_loop [1 ..< length ls] (integrate_segment lib pv df (map Fin ls)) ?z = Inr a"
    by (simp add: integrate_segments_def Let_def)
  have i: "1 \<le> i \<and> i < length ls \<and> ls ! (i - 1) \<le> ls ! i" if "i \<in> set [1 ..< length ls]" for i
  proof -
    from that have i: "1 \<le> i" "i < length ls" by simp_all
    then have "i - 1 < i" by simp
    with up i have "ls ! (i - 1) < ls ! i" by (simp add: sorted_wrt_nth_less)
    with i show ?thesis by simp
  qed
  from integrate_segments_loop[OF loop i w]
  have r: "length (gridFGint a) = length ls"
     "\<forall>j. j \<notin> set [1 ..< length ls] \<longrightarrow> gridFGint a ! j = gridFGint ?z ! j"
     "\<forall>j < length ls. grows (gridFGint ?z ! j) (gridFGint a ! j)"
    by simp_all
  from r(2) have "0 < length ls \<longrightarrow> gridFGint a ! 0 = Fin 0" by simp
  moreover from r(3) have "\<forall>j < length ls. grows (Fin 0) (gridFGint a ! j)" by simp
  ultimately show ?thesis using r(1) by simp
qed

lemma running_sum_upto:
  assumes "1 \<le> k" "k \<le> length xs"
  shows "length (fold (\<lambda>i ys. ys[i := dadd (ys ! i) (ys ! (i - 1))]) [1 ..< k] xs) = length xs \<and>
         (\<forall>j. (j = 0 \<or> k \<le> j) \<longrightarrow>
            fold (\<lambda>i ys. ys[i := dadd (ys ! i) (ys ! (i - 1))]) [1 ..< k] xs ! j = xs ! j) \<and>
         (\<forall>j. 1 \<le> j \<and> j < k \<longrightarrow>
            fold (\<lambda>i ys. ys[i := dadd (ys ! i) (ys ! (i - 1))]) [1 ..< k] xs ! j
              = dadd (xs ! j) (fold (\<lambda>i ys. ys[i := dadd (ys ! i) (ys ! (i - 1))]) [1 ..< k] xs
                                 ! (j - 1)))"
  using assms
proof (induction k)
  case 0
  then show ?case by simp
next
  case (Suc k)
  let ?step = "\<lambda>i ys. ys[i := dadd (ys ! i) (ys ! (i - 1))]"
  show ?case
  proof (cases "k = 0")
    case True
    then show ?thesis by simp
  next
    case False
    then have k1: "1 \<le> k" by simp
    from Suc.prems have kl: "k < length xs" by simp
    let ?r = "fold ?step [1 ..< k] xs"
    from Suc.IH[OF k1] kl have IH:
      "length ?r = length xs"
      "\<forall>j. (j = 0 \<or> k \<le> j) \<longrightarrow> ?r ! j = xs ! j"
      "\<forall>j. 1 \<le> j \<and> j < k \<longrightarrow> ?r ! j = dadd (xs ! j) (?r ! (j - 1))"
      by simp_all
    have up: "[1 ..< Suc k] = [1 ..< k] @ [k]" using k1 by simp
    have r': "fold ?step [1 ..< Suc k] xs = ?r[k := dadd (?r ! k) (?r ! (k - 1))]"
      unfolding up by simp
    have rk: "?r ! k = xs ! k" using IH(2) by simp
    have a: "length (fold ?step [1 ..< Suc k] xs) = length xs"
      unfolding r' using IH(1) by simp
    have b: "fold ?step [1 ..< Suc k] xs ! j = xs ! j" if "j = 0 \<or> Suc k \<le> j" for j
    proof -
      from that k1 have "j \<noteq> k" by auto
      then have "fold ?step [1 ..< Suc k] xs ! j = ?r ! j" unfolding r' by simp
      also have "\<dots> = xs ! j" using IH(2) that by auto
      finally show ?thesis .
    qed
    have c: "fold ?step [1 ..< Suc k] xs ! j = dadd (xs ! j) (fold ?step [1 ..< Suc k] xs ! (j - 1))"
      if "1 \<le> j \<and> j < Suc k" for j
    proof (cases "j = k")
      case True
      have "fold ?step [1 ..< Suc k] xs ! k = dadd (?r ! k) (?r ! (k - 1))"
        unfolding r' using kl IH(1) by simp
      moreover have "fold ?step [1 ..< Suc k] xs ! (k - 1) = ?r ! (k - 1)"
        unfolding r' using k1 by simp
      ultimately show ?thesis using True rk by simp
    next
      case False
      with that have jk: "1 \<le> j \<and> j < k" by simp
      then have "fold ?step [1 ..< Suc k] xs ! j = ?r ! j" unfolding r' by simp
      moreover from jk have "k \<noteq> j - 1" by arith
      then have "fold ?step [1 ..< Suc k] xs ! (j - 1) = ?r ! (j - 1)"
        unfolding r' by (rule nth_list_update_neq)
      ultimately show ?thesis using IH(3) jk by simp
    qed
    from a b c show ?thesis by blast
  qed
qed

lemma running_sum_spec:
  assumes "xs \<noteq> []"
  shows "length (running_sum xs) = length xs \<and> running_sum xs ! 0 = xs ! 0 \<and>
         (\<forall>j. 1 \<le> j \<and> j < length xs \<longrightarrow>
            running_sum xs ! j = dadd (xs ! j) (running_sum xs ! (j - 1)))"
proof -
  from assms have "1 \<le> length xs" by (cases xs) simp_all
  from running_sum_upto[OF this, of xs] show ?thesis
    unfolding running_sum_def by simp
qed

lemma grows_dadd_left:
  assumes "grows (Fin 0) c"
  shows "grows x (dadd c x)"
  using assms by (cases x; cases c) (auto simp add: grows_def)

lemma grows_dsub:
  assumes "\<And>t. c = Fin t \<Longrightarrow> t \<le> 0"
  shows "grows x (dsub x c)"
  using assms by (cases x; cases c) (auto simp add: grows_def dsub_def)

lemma tail_nonpos:
  assumes f: "dge f (Fin 0)" and h: "0 < h"
    and s: "(f = Fin 0 \<and> s = Fin 0) \<or> dlt s (Fin (- 1))"
    and t: "ddiv (dmul f (Fin h)) (dadd (Fin 1) s) = Fin t"
  shows "t \<le> 0"
proof -
  from s show ?thesis
  proof
    assume "f = Fin 0 \<and> s = Fin 0"
    with t show ?thesis by simp
  next
    assume lt: "dlt s (Fin (- 1))"
    show ?thesis
    proof (cases f)
      case (Fin x)
      with f have x: "0 \<le> x" by (auto simp add: dge_def dle_def)
      show ?thesis
      proof (cases s)
        case (Fin y)
        with lt have "1 + y < 0" by simp
        with x h t \<open>f = Fin x\<close> \<open>s = Fin y\<close> show ?thesis
          by (auto simp add: divide_nonneg_neg mult_nonneg_nonneg split: if_splits)
      next
        case NInf
        with t \<open>f = Fin x\<close> show ?thesis by simp
      qed (use lt in simp_all)
    next
      case PInf
      with t h lt show ?thesis by (cases s) (auto split: if_splits)
    qed (use f in \<open>simp_all add: dge_def dle_def\<close>)
  qed
qed

lemma tabulate_node_ok:
  "dge (fn_value df (dexp (g ! i))) (Fin 0) \<Longrightarrow> \<exists>s'. tabulate_node pv df g i s = Inr s'"
  by (simp add: tabulate_node_def Let_def)

lemma tabulate_node_bad:
  "\<not> dge (fn_value df (dexp (g ! i))) (Fin 0)
     \<Longrightarrow> tabulate_node pv df g i s = Inl (RuntimeError msg_df_negative)"
  by (simp add: tabulate_node_def Let_def)

lemma tabulate_nodes_Inr:
  assumes ok: "tabulate_nodes pv df g = Inr v"
  shows "(\<forall>i < length g. dge (fn_value df (dexp (g ! i))) (Fin 0)) \<and>
         v = \<lparr> gridF = map (\<lambda>x. fn_value df (dexp x)) g,
               gridG = map (\<lambda>x. fst (snd (pv_E pv (dexp x)))) g,
               gridH = map dexp g,
               gridE = map (\<lambda>x. fst (pv_E pv (dexp x))) g \<rparr>"
proof -
  have all: "\<forall>i < length g. dge (fn_value df (dexp (g ! i))) (Fin 0)"
  proof (rule ccontr)
    assume "\<not> (\<forall>i < length g. dge (fn_value df (dexp (g ! i))) (Fin 0))"
    then obtain i where i: "i < length g \<and> \<not> dge (fn_value df (dexp (g ! i))) (Fin 0)" by blast
    define p where "p = (LEAST i. i < length g \<and> \<not> dge (fn_value df (dexp (g ! i))) (Fin 0))"
    have p: "p < length g \<and> \<not> dge (fn_value df (dexp (g ! p))) (Fin 0)"
      unfolding p_def using i by (rule LeastI)
    have before: "dge (fn_value df (dexp (g ! k))) (Fin 0)" if "k < p" for k
    proof -
      from that have "\<not> (k < length g \<and> \<not> dge (fn_value df (dexp (g ! k))) (Fin 0))"
        unfolding p_def by (rule not_less_Least)
      moreover from that p have "k < length g" by simp
      ultimately show ?thesis by simp
    qed
    have split: "[0 ..< length g] = [0 ..< p] @ p # [Suc p ..< length g]"
    proof -
      have "[0 ..< length g] = [0 ..< p] @ [p ..< length g]"
        using p upt_add_eq_append[of 0 p "length g - p"] by simp
      then show ?thesis using p by (simp add: upt_conv_Cons)
    qed
    have okk: "\<exists>s'. tabulate_node pv df g k s = Inr s'" if "k \<in> set [0 ..< p]" for k s
      using that before[of k] by (simp add: tabulate_node_ok)
    have bad: "tabulate_node pv df g p s = Inl (RuntimeError msg_df_negative)" for s
      using p by (simp add: tabulate_node_bad)
    have "for_loop [0 ..< length g] (tabulate_node pv df g) s = Inl (RuntimeError msg_df_negative)"
      for s unfolding split using okk bad by (rule for_loop_fail)
    then have "tabulate_nodes pv df g = Inl (RuntimeError msg_df_negative)"
      by (simp add: tabulate_nodes_def Let_def)
    with ok show False by simp
  qed
  then have "tabulate_nodes pv df g
         = Inr \<lparr> gridF = map (\<lambda>x. fn_value df (dexp x)) g,
                 gridG = map (\<lambda>x. fst (snd (pv_E pv (dexp x)))) g,
                 gridH = map dexp g,
                 gridE = map (\<lambda>x. fst (pv_E pv (dexp x))) g \<rparr>"
    by (intro tabulate_nodes_value) simp
  with ok all show ?thesis by simp
qed

lemma asymptotic_F_Inr:
  assumes ok: "asymptotic_F df g v = Inr (gF, iF, oF)" and len: "length (gridF v) = length g"
  shows "1 \<le> length g \<and> length gF = length g \<and>
         (gF ! (length g - 1) = Fin 0 \<or> gF ! (length g - 1) = gridF v ! (length g - 1)) \<and>
         ((gF ! (length g - 1) = Fin 0 \<and> oF = Fin 0) \<or> dlt oF (Fin (- 1)))"
proof -
  from ok have ne: "g \<noteq> []" by (auto simp add: asymptotic_F_def Let_def split: if_splits)
  then have n: "1 \<le> length g" by (cases g) simp_all
  with ok len show ?thesis
    by (auto simp add: asymptotic_F_def Let_def nth_list_update split: if_splits)
qed

lemma isFinite_dadd: "isFinite (dadd a b) \<Longrightarrow> isFinite a \<and> isFinite b"
  by (cases a; cases b) simp_all

lemma constructor_stages:
  assumes ok: "SphericalIsotropicModel_new lib pv df gridh = Inr m"
  shows "\<exists>v gF iF oF a.
           tabulate_nodes pv df (make_gridLogH lib df gridh) = Inr v \<and>
           asymptotic_F df (make_gridLogH lib df gridh) v = Inr (gF, iF, oF) \<and>
           integrate_segments lib pv df (make_gridLogH lib df gridh) = Inr a \<and>
           sp_x (intfg m) = gridH v \<and>
           sp_val (intfg m) = accumulate_FGint gF (gridH v) iF oF (gridFGint a) \<and>
           totalMass m = last (sp_val (intfg m)) \<and>
           (\<forall>i < length (make_gridLogH lib df gridh). isFinite (sp_val (intfg m) ! i))"
proof -
  let ?g = "make_gridLogH lib df gridh"
  from ok obtain v where v: "tabulate_nodes pv df ?g = Inr v"
    by (auto simp add: SphericalIsotropicModel_new_def Let_def split: sum.splits)
  from ok v obtain gF iF oF where F: "asymptotic_F df ?g v = Inr (gF, iF, oF)"
    by (auto simp add: SphericalIsotropicModel_new_def Let_def split: sum.splits)
  from ok v F obtain sl where sl: "asymptotic_E pv v iF oF = Inr sl"
    by (auto simp add: SphericalIsotropicModel_new_def Let_def split: sum.splits)
  from ok v F sl obtain a where a: "integrate_segments lib pv df ?g = Inr a"
    by (auto simp add: SphericalIsotropicModel_new_def Let_def split: sum.splits)
  let ?FG = "accumulate_FGint gF (gridH v) iF oF (gridFGint a)"
  let ?a' = "\<lparr> gridFint = accumulate_Fint gF sl (gridFint a), gridFGint = ?FG,
               gridFHint = accumulate_FHint gF (gridG v) (gridH v) sl iF oF (gridFHint a),
               gridFEint = accumulate_FEint gF (gridH v) sl iF oF (gridFEint a) \<rparr>"
  from ok v F sl a have chk: "list_all (derivs_ok gF v ?a') [0 ..< length ?g]"
    and m: "sp_x (intfg m) = gridH v" "sp_val (intfg m) = ?FG" "totalMass m = last ?FG"
    by (auto simp add: SphericalIsotropicModel_new_def Let_def split: if_splits)
  have fin: "isFinite (?FG ! i)" if "i < length ?g" for i
  proof -
    from chk that have "derivs_ok gF v ?a' i" by (simp add: list_all_iff)
    then have "isFinite (dadd (dadd (dadd (gridFint ?a' ! i) (gridFGint ?a' ! i)) (gridFHint ?a' ! i))
                  (gridFEint ?a' ! i))"
      unfolding derivs_ok_def by blast
    then have "isFinite (gridFGint ?a' ! i)" by (blast dest: isFinite_dadd)
    then show ?thesis by simp
  qed
  from v F a m fin show ?thesis by auto
qed

lemma isFinite_the_fin: "isFinite x \<Longrightarrow> x = Fin (the_fin x)"
  by (cases x) simp_all

text \<open>
  The cumulative mass at the nodes: after a successful construction on a grid of finite,
  strictly increasing values of log h, with quadrature weights that are not negative, the
  values of FGint held by the spline \<open>intfg\<close> are finite and do not decrease from one node
  to the next, and \<open>totalMass\<close> is the last of them. How the spline runs between the nodes
  is decided by \<open>math::LogLogSpline\<close>.
\<close>

lemma constructed_nodes_monotone:
  assumes ok: "SphericalIsotropicModel_new lib pv df gridh = Inr m"
    and grid: "make_gridLogH lib df gridh = map Fin ls" and up: "sorted_wrt (<) ls"
    and w: "\<And>k. 0 \<le> GLWEIGHTS lib GLORDER1 k \<and> 0 \<le> GLWEIGHTS lib GLORDER2 k"
  shows "\<exists>vs. sp_val (intfg m) = map Fin vs \<and> length vs = length ls \<and> sorted vs \<and>
              totalMass m = Fin (last vs)"
proof -
  let ?n = "length ls"
  from constructor_stages[OF ok] obtain v gF iF oF a where
    v: "tabulate_nodes pv df (map Fin ls) = Inr v" and
    F: "asymptotic_F df (map Fin ls) v = Inr (gF, iF, oF)" and
    a: "integrate_segments lib pv df (map Fin ls) = Inr a" and
    FG: "sp_val (intfg m) = accumulate_FGint gF (gridH v) iF oF (gridFGint a)" and
    M: "totalMass m = last (sp_val (intfg m))" and
    fin: "\<forall>i < ?n. isFinite (sp_val (intfg m) ! i)"
    unfolding grid by auto
  from tabulate_nodes_Inr[OF v] have
    fpos: "\<forall>i < ?n. dge (gridF v ! i) (Fin 0)" and
    gH: "gridH v = map (\<lambda>l. Fin (exp l)) ls" and lenF: "length (gridF v) = length (map Fin ls)"
    by auto
  from asymptotic_F_Inr[OF F lenF] have
    n1: "1 \<le> ?n" and lgF: "length gF = ?n" and
    last_gF: "gF ! (?n - 1) = Fin 0 \<or> gF ! (?n - 1) = gridF v ! (?n - 1)" and
    outer: "(gF ! (?n - 1) = Fin 0 \<and> oF = Fin 0) \<or> dlt oF (Fin (- 1))"
    by simp_all
  from integrate_segments_FG[OF a up w] have
    lraw: "length (gridFGint a) = ?n" and
    raw: "\<forall>j < ?n. grows (Fin 0) (gridFGint a ! j)"
    by simp_all
  let ?xs = "(gridFGint a)[0 := ddiv (dmul (gF ! 0) (gridH v ! 0)) (dadd (Fin 1) iF)]"
  let ?ys = "running_sum ?xs"
  let ?tail = "ddiv (dmul (last gF) (last (gridH v))) (dadd (Fin 1) oF)"
  have FG': "sp_val (intfg m) = ?ys[?n - 1 := dsub (?ys ! (?n - 1)) ?tail]"
    unfolding FG accumulate_FGint_def Let_def lraw ..
  have xne: "?xs \<noteq> []" using lraw n1 by auto
  from running_sum_spec[OF xne] lraw have
    lys: "length ?ys = ?n" and
    ys: "\<forall>j. 1 \<le> j \<and> j < ?n \<longrightarrow> ?ys ! j = dadd (?xs ! j) (?ys ! (j - 1))"
    by simp_all
  have step: "grows (?ys ! (j - 1)) (?ys ! j)" if "1 \<le> j" "j < ?n" for j
  proof -
    from that have "?xs ! j = gridFGint a ! j" by simp
    with raw that have "grows (Fin 0) (?xs ! j)" by simp
    then have "grows (?ys ! (j - 1)) (dadd (?xs ! j) (?ys ! (j - 1)))" by (rule grows_dadd_left)
    with ys that show ?thesis by simp
  qed
  have gFne: "gF \<noteq> []" using lgF n1 by auto
  have lastF: "last gF = gF ! (?n - 1)" using gFne lgF by (simp add: last_conv_nth)
  have lastH: "last (gridH v) = Fin (exp (ls ! (?n - 1)))"
    using n1 gH by (cases ls rule: rev_cases) simp_all
  have fl: "dge (gF ! (?n - 1)) (Fin 0)"
  proof -
    from n1 have "?n - 1 < ?n" by simp
    with fpos have "dge (gridF v ! (?n - 1)) (Fin 0)" by simp
    with last_gF show ?thesis by (auto simp add: dge_def dle_def)
  qed
  have tail: "\<And>t. ?tail = Fin t \<Longrightarrow> t \<le> 0"
    unfolding lastF lastH by (rule tail_nonpos[OF fl _ outer]) simp_all
  have final: "grows (?ys ! (?n - 1)) (dsub (?ys ! (?n - 1)) ?tail)"
    using tail by (rule grows_dsub)
  let ?F = "sp_val (intfg m)"
  have lF: "length ?F = ?n" unfolding FG' using lys by simp
  have after: "grows (?ys ! j) (?F ! j)" if "j < ?n" for j
  proof (cases "j = ?n - 1")
    case True
    then show ?thesis unfolding FG' using final lys that by simp
  next
    case False
    then show ?thesis unfolding FG' by (simp add: grows_refl)
  qed
  have chain: "grows (?F ! i) (?F ! Suc i)" if "Suc i < ?n" for i
  proof -
    from that have "i \<noteq> ?n - 1" by simp
    then have "?F ! i = ?ys ! i" unfolding FG' by simp
    moreover from step[of "Suc i"] that have "grows (?ys ! i) (?ys ! Suc i)" by simp
    moreover from after[OF that] have "grows (?ys ! Suc i) (?F ! Suc i)" .
    ultimately show ?thesis by (metis grows_trans)
  qed
  let ?vs = "map the_fin ?F"
  have eq: "?F = map Fin ?vs"
  proof (rule nth_equalityI)
    show "length ?F = length (map Fin ?vs)" by simp
    fix i assume "i < length ?F"
    with fin lF have "isFinite (?F ! i)" by simp
    then have "?F ! i = Fin (the_fin (?F ! i))" by (rule isFinite_the_fin)
    with \<open>i < length ?F\<close> show "?F ! i = map Fin ?vs ! i" by simp
  qed
  have srt: "sorted ?vs"
  proof (subst sorted_iff_nth_Suc, intro allI impI)
    fix i assume i: "Suc i < length ?vs"
    then have si: "Suc i < ?n" using lF by simp
    from si lF have e1: "?F ! Suc i = Fin (?vs ! Suc i)" and e0: "?F ! i = Fin (?vs ! i)"
      using eq by (metis length_map nth_map Suc_lessD)+
    from chain[OF si] e1 e0 show "?vs ! i \<le> ?vs ! Suc i"
      by (simp add: grows_def)
  qed
  have ne: "?F \<noteq> []" using lF n1 by auto
  have "last ?F = Fin (last ?vs)"
    using ne by (subst eq) (simp add: last_map)
  with M eq lF srt show ?thesis by (metis length_map)
qed

section \<open>Properties of init\<close>

lemma trim_grid_snoc:
  "trim_grid df (xs @ [x]) =
     (if dle (fn_value df (dexp x)) MIN_VALUE_ROUNDOFF then trim_grid df xs else xs @ [x])"
  by (subst trim_grid.simps) simp

lemma trim_grid_Nil: "trim_grid df [] = []"
  by (subst trim_grid.simps) simp

lemma trim_grid_prefix:
  "\<exists>dropped. g = trim_grid df g @ dropped \<and>
      (\<forall>x \<in> set dropped. dle (fn_value df (dexp x)) MIN_VALUE_ROUNDOFF)"
proof (induction g rule: rev_induct)
  case Nil
  show ?case by (simp add: trim_grid_Nil)
next
  case (snoc x xs)
  then obtain d where d: "xs = trim_grid df xs @ d"
    "\<forall>y \<in> set d. dle (fn_value df (dexp y)) MIN_VALUE_ROUNDOFF" by blast
  show ?case
  proof (cases "dle (fn_value df (dexp x)) MIN_VALUE_ROUNDOFF")
    case True
    have "xs @ [x] = trim_grid df (xs @ [x]) @ (d @ [x])"
      using d(1) True by (simp add: trim_grid_snoc)
    moreover have "\<forall>y \<in> set (d @ [x]). dle (fn_value df (dexp y)) MIN_VALUE_ROUNDOFF"
      using d(2) True by simp
    ultimately show ?thesis by blast
  next
    case False
    then have "xs @ [x] = trim_grid df (xs @ [x]) @ []" by (simp add: trim_grid_snoc)
    then show ?thesis by (metis empty_iff list.set(1))
  qed
qed

lemma trim_grid_last:
  "trim_grid df g \<noteq> [] \<Longrightarrow>
   \<not> dle (fn_value df (dexp (last (trim_grid df g)))) MIN_VALUE_ROUNDOFF"
  by (induction g rule: rev_induct) (auto simp add: trim_grid_Nil trim_grid_snoc)


lemma init_cell_appends:
  "\<exists>J0 J1 J3 x y. init_cell lib m df gridLogH gridY oa i j (a, b, c, r1, r3)
      = (J0, J1, J3, r1 @ [x], r3 @ [y])"
  by (simp add: init_cell_def Let_def)

lemma fold_init_cell_rows:
  "\<exists>J0 J1 J3 xs ys. fold (init_cell lib m df gridLogH gridY oa i) js (a, b, c, r1, r3)
      = (J0, J1, J3, r1 @ xs, r3 @ ys) \<and> length xs = length js \<and> length ys = length js"
proof (induction js arbitrary: a b c r1 r3)
  case Nil
  show ?case by simp
next
  case (Cons j js)
  from init_cell_appends[of lib m df gridLogH gridY oa i j a b c r1 r3]
  obtain J0 J1 J3 x y where
    s: "init_cell lib m df gridLogH gridY oa i j (a, b, c, r1, r3) = (J0, J1, J3, r1 @ [x], r3 @ [y])"
    by blast
  from Cons.IH[of J0 J1 J3 "r1 @ [x]" "r3 @ [y]"]
  obtain K0 K1 K3 xs ys where
    "fold (init_cell lib m df gridLogH gridY oa i) js (J0, J1, J3, r1 @ [x], r3 @ [y])
       = (K0, K1, K3, (r1 @ [x]) @ xs, (r3 @ [y]) @ ys)" "length xs = length js" "length ys = length js"
    by blast
  with s have "fold (init_cell lib m df gridLogH gridY oa i) (j # js) (a, b, c, r1, r3)
       = (K0, K1, K3, r1 @ (x # xs), r3 @ (y # ys)) \<and> length (x # xs) = length (j # js)
         \<and> length (y # ys) = length (j # js)"
    by simp
  then show ?case by blast
qed

lemma init_row_shape:
  "\<exists>xs ys. init_row lib m df gridLogH gridY oa i
      = (dlog (Fin (2 / 3)) # xs, dlog (Fin (2 / 5)) # ys) \<and>
      length xs = npointsY - 1 \<and> length ys = npointsY - 1"
proof -
  from fold_init_cell_rows[of lib m df gridLogH gridY oa i "[1 ..< npointsY]" "Fin 0" "Fin 0" "Fin 0"
      "[dlog (Fin (2 / 3))]" "[dlog (Fin (2 / 5))]"]
  obtain J0 J1 J3 xs ys where
    "fold (init_cell lib m df gridLogH gridY oa i) [1 ..< npointsY]
       (Fin 0, Fin 0, Fin 0, [dlog (Fin (2 / 3))], [dlog (Fin (2 / 5))])
     = (J0, J1, J3, [dlog (Fin (2 / 3))] @ xs, [dlog (Fin (2 / 5))] @ ys)"
    "length xs = length [1 ..< npointsY]" "length ys = length [1 ..< npointsY]"
    by blast
  then show ?thesis by (simp add: init_row_def)
qed

lemma init_success:
  assumes "init lib m df gridh = Inr (J1, J3)"
  shows "\<exists>gridY oa. 3 \<le> length (trim_grid df (make_gridLogH lib df gridh)) \<and>
     J1 = \<lparr> sp2_x = trim_grid df (make_gridLogH lib df gridh), sp2_y = gridY,
            sp2_z = map fst (map (init_row lib m df (trim_grid df (make_gridLogH lib df gridh)) gridY oa)
                      [0 ..< length (trim_grid df (make_gridLogH lib df gridh))]) \<rparr> \<and>
     J3 = \<lparr> sp2_x = trim_grid df (make_gridLogH lib df gridh), sp2_y = gridY,
            sp2_z = map snd (map (init_row lib m df (trim_grid df (make_gridLogH lib df gridh)) gridY oa)
                      [0 ..< length (trim_grid df (make_gridLogH lib df gridh))]) \<rparr>"
  using assms unfolding init_def Let_def
  by (auto split: if_splits)

lemma stub_grid:
  "make_gridLogH stub_lib stub_df [Fin 1, Fin 2, Fin 4, Fin 32]
     = [Fin 0, Fin (ln 2), Fin (ln 4), Fin (ln 32)]"
  by (simp add: make_gridLogH_def)

lemma stub_df_32: "dle (fn_value stub_df (dexp (Fin (ln 32)))) MIN_VALUE_ROUNDOFF"
  by (simp add: stub_df_def MIN_VALUE_ROUNDOFF_def dle_def)

lemma stub_df_4: "\<not> dle (fn_value stub_df (dexp (Fin (ln 4)))) MIN_VALUE_ROUNDOFF"
  by (simp add: stub_df_def MIN_VALUE_ROUNDOFF_def dle_def pow_2_def)

lemma stub_trim:
  "trim_grid stub_df [Fin 0, Fin (ln 2), Fin (ln 4), Fin (ln 32)] = [Fin 0, Fin (ln 2), Fin (ln 4)]"
  using trim_grid_snoc[of stub_df "[Fin 0, Fin (ln 2), Fin (ln 4)]" "Fin (ln 32)"]
        trim_grid_snoc[of stub_df "[Fin 0, Fin (ln 2)]" "Fin (ln 4)"]
        stub_df_32 stub_df_4
  by simp

lemma init_stub_succeeds:
  "\<exists>J1 J3. init stub_lib stub_model stub_df [Fin 1, Fin 2, Fin 4, Fin 32] = Inr (J1, J3)"
  unfolding init_def Let_def stub_grid stub_trim
  by (simp add: stub_df_def stub_model_def stub_phasevol_def stub_lib_def pow_2_def pow_3_def dgt_def)

text \<open>
  Claim C10: \<open>init\<close> drops the trailing nodes of the grid at which f(h) is at or below the
  threshold \<open>MIN_VALUE_ROUNDOFF\<close>, without an error, down to the last node at which f(h)
  is not; it throws the runtime error
  "f(h) is nowhere positive" whenever fewer than 3 nodes are left; and the X grid of the
  two 2d splines that it builds is the trimmed grid, which can be shorter than the grid of
  the caller.
\<close>

theorem init_trims_grid:
  "(\<exists>dropped. make_gridLogH lib df gridh = trim_grid df (make_gridLogH lib df gridh) @ dropped \<and>
      (\<forall>x \<in> set dropped. dle (fn_value df (dexp x)) MIN_VALUE_ROUNDOFF)) \<and>
   (trim_grid df (make_gridLogH lib df gridh) \<noteq> [] \<longrightarrow>
      \<not> dle (fn_value df (dexp (last (trim_grid df (make_gridLogH lib df gridh)))))
           MIN_VALUE_ROUNDOFF) \<and>
   (length (trim_grid df (make_gridLogH lib df gridh)) < 3 \<longrightarrow>
      init lib m df gridh = Inl (RuntimeError msg_local_nowhere_positive)) \<and>
   (init lib m df gridh = Inr (J1, J3) \<longrightarrow>
      sp2_x J1 = trim_grid df (make_gridLogH lib df gridh) \<and>
      sp2_x J3 = trim_grid df (make_gridLogH lib df gridh))"
proof (intro conjI impI)
  show "\<exists>dropped. make_gridLogH lib df gridh = trim_grid df (make_gridLogH lib df gridh) @ dropped \<and>
      (\<forall>x \<in> set dropped. dle (fn_value df (dexp x)) MIN_VALUE_ROUNDOFF)"
    by (rule trim_grid_prefix)
next
  assume "trim_grid df (make_gridLogH lib df gridh) \<noteq> []"
  then show "\<not> dle (fn_value df (dexp (last (trim_grid df (make_gridLogH lib df gridh)))))
           MIN_VALUE_ROUNDOFF"
    by (rule trim_grid_last)
next
  assume "length (trim_grid df (make_gridLogH lib df gridh)) < 3"
  then show "init lib m df gridh = Inl (RuntimeError msg_local_nowhere_positive)"
    by (simp add: init_def)
next
  assume a: "init lib m df gridh = Inr (J1, J3)"
  from init_success[OF a] show "sp2_x J1 = trim_grid df (make_gridLogH lib df gridh)" by auto
  from init_success[OF a] show "sp2_x J3 = trim_grid df (make_gridLogH lib df gridh)" by auto
qed

theorem init_trims_grid_witness:
  "\<exists>J1 J3. init stub_lib stub_model stub_df [Fin 1, Fin 2, Fin 4, Fin 32] = Inr (J1, J3) \<and>
     make_gridLogH stub_lib stub_df [Fin 1, Fin 2, Fin 4, Fin 32]
       = [Fin 0, Fin (ln 2), Fin (ln 4), Fin (ln 32)] \<and>
     sp2_x J1 = [Fin 0, Fin (ln 2), Fin (ln 4)] \<and>
     sp2_x J3 = [Fin 0, Fin (ln 2), Fin (ln 4)] \<and>
     length (trim_grid stub_df (make_gridLogH stub_lib stub_df [Fin 1, Fin 2, Fin 32])) < 3 \<and>
     init stub_lib stub_model stub_df [Fin 1, Fin 2, Fin 32]
       = Inl (RuntimeError msg_local_nowhere_positive)"
proof -
  from init_stub_succeeds obtain J1 J3 where
    ok: "init stub_lib stub_model stub_df [Fin 1, Fin 2, Fin 4, Fin 32] = Inr (J1, J3)" by blast
  have short: "trim_grid stub_df (make_gridLogH stub_lib stub_df [Fin 1, Fin 2, Fin 32])
      = [Fin 0, Fin (ln 2)]"
    using trim_grid_snoc[of stub_df "[Fin 0, Fin (ln 2)]" "Fin (ln 32)"]
          trim_grid_snoc[of stub_df "[Fin 0]" "Fin (ln 2)"] stub_df_32
    by (simp add: make_gridLogH_def stub_df_def MIN_VALUE_ROUNDOFF_def dle_def pow_2_def)
  from ok short
       init_trims_grid[of stub_lib stub_df "[Fin 1, Fin 2, Fin 4, Fin 32]" stub_model J1 J3]
       init_trims_grid[of stub_lib stub_df "[Fin 1, Fin 2, Fin 32]" stub_model J1 J3]
  show ?thesis by (simp add: stub_grid stub_trim)
qed

lemma init_rows:
  assumes a: "init lib m df gridh = Inr (J1, J3)" and i: "i < length (sp2_x J1)"
  shows "\<exists>xs ys. sp2_z J1 ! i = dlog (Fin (2 / 3)) # xs \<and> sp2_z J3 ! i = dlog (Fin (2 / 5)) # ys
           \<and> length xs = npointsY - 1 \<and> length ys = npointsY - 1"
proof -
  let ?g = "trim_grid df (make_gridLogH lib df gridh)"
  from init_success[OF a] obtain gridY oa where
    J1: "J1 = \<lparr> sp2_x = ?g, sp2_y = gridY,
            sp2_z = map fst (map (init_row lib m df ?g gridY oa) [0 ..< length ?g]) \<rparr>" and
    J3: "J3 = \<lparr> sp2_x = ?g, sp2_y = gridY,
            sp2_z = map snd (map (init_row lib m df ?g gridY oa) [0 ..< length ?g]) \<rparr>"
    by blast
  from i J1 have il: "i < length ?g" by simp
  from init_row_shape[of lib m df ?g gridY oa i] obtain xs ys where
    "init_row lib m df ?g gridY oa i = (dlog (Fin (2 / 3)) # xs, dlog (Fin (2 / 5)) # ys)"
    "length xs = npointsY - 1" "length ys = npointsY - 1" by blast
  with il J1 J3 show ?thesis by simp
qed

text \<open>The Y grid of the two splines is the grid that the grid builder returns.\<close>

lemma init_success_gridY:
  assumes "init lib m df gridh = Inr (J1, J3)"
  shows "\<exists>d x. sp2_y J1 = createNonuniformGrid lib npointsY d x True \<and>
               sp2_y J3 = createNonuniformGrid lib npointsY d x True"
proof -
  let ?g = "trim_grid df (make_gridLogH lib df gridh)"
  let ?x = "dsub (last ?g) (hd ?g)"
  let ?d = "dfmin (Fin (1 / 10)) (ddiv ?x (Fin (real npointsY)))"
  from assms have "sp2_y J1 = createNonuniformGrid lib npointsY ?d ?x True \<and>
               sp2_y J3 = createNonuniformGrid lib npointsY ?d ?x True"
    unfolding init_def Let_def by (auto split: if_splits)
  then show ?thesis by blast
qed

text \<open>The stand-in library with the table look-up meets the two contracts.\<close>

lemma node_index_less: "g \<noteq> [] \<Longrightarrow> node_index g v < length g"
  by (induction g) auto

lemma node_index_hd: "g \<noteq> [] \<Longrightarrow> node_index g (hd g) = 0"
  by (cases g) simp_all

lemma node_lib_grid: "createNonuniformGrid_spec node_lib"
  by (simp add: createNonuniformGrid_spec_def node_lib_def stub_lib_def)

lemma node_lib_spline: "CubicSpline2d_spec node_lib"
  unfolding CubicSpline2d_spec_def
  by (auto simp add: node_lib_def stub_lib_def node_index_hd node_index_less)

text \<open>
  The constructor and \<open>init\<close> never evaluate a 2d spline, so that the runs of the
  constructor above carry over to this library.
\<close>

lemma new_node_lib:
  "SphericalIsotropicModel_new node_lib pv df g = SphericalIsotropicModel_new stub_lib pv df g"
proof -
  have a: "integrate_node node_lib = integrate_node stub_lib"
    by (simp add: fun_eq_iff integrate_node_def node_lib_def)
  have b: "integrate_segment node_lib = integrate_segment stub_lib"
    by (simp add: fun_eq_iff integrate_segment_def a)
  have c: "integrate_segments node_lib = integrate_segments stub_lib"
    by (simp add: fun_eq_iff integrate_segments_def b)
  have d: "make_gridLogH node_lib = make_gridLogH stub_lib"
    by (simp add: fun_eq_iff make_gridLogH_def node_lib_def)
  show ?thesis
    unfolding SphericalIsotropicModel_new_def c d ..
qed

lemma cored_trim:
  "trim_grid cored_df [Fin (- ln 4), Fin 0, Fin (ln 4), Fin (2 * ln 4)]
     = [Fin (- ln 4), Fin 0, Fin (ln 4), Fin (2 * ln 4)]"
  by (subst trim_grid.simps)
     (simp add: cored_df_def exp_grid pow_2_def dle_def MIN_VALUE_ROUNDOFF_def)

lemma cored_node_grid:
  "make_gridLogH node_lib cored_df [Fin (1 / 4), Fin 1, Fin 4, Fin 16]
     = [Fin (- ln 4), Fin 0, Fin (ln 4), Fin (2 * ln 4)]"
  by (simp add: make_gridLogH_def ln_quarter ln16_4)

lemma init_cored_succeeds:
  assumes "phasevol m = stub_phasevol"
  shows "\<exists>J1 J3. init node_lib m cored_df [Fin (1 / 4), Fin 1, Fin 4, Fin 16] = Inr (J1, J3)"
  unfolding init_def Let_def cored_node_grid cored_trim assms
  by (simp add: cored_df_def stub_phasevol_def exp_grid pow_2_def pow_3_def dgt_def)

text \<open>
  Claim C6: in the two matrices that \<open>init\<close> hands to the 2d splines, every row (one per
  node of the X grid) holds at \<open>j = 0\<close> the values \<open>log(2/3)\<close> for J1/J0 and
  \<open>log(2/5)\<close> for J3/J0, whose exponentials are 2/3 and 2/5. With a grid builder and a
  2d spline that meet their contracts, \<open>j = 0\<close> is the node Y = 0, which is the Y-minimum
  of both surfaces, and evaluating the surfaces there gives \<open>log(2/3)\<close> and \<open>log(2/5)\<close>,
  that is 2/3 and 2/5 after the exponential, at every X of their domain.
\<close>

theorem init_boundary_values:
  "(init lib m df gridh = Inr (J1, J3) \<longrightarrow>
     length (sp2_z J1) = length (sp2_x J1) \<and> length (sp2_z J3) = length (sp2_x J3) \<and>
     (\<forall>i < length (sp2_x J1).
        sp2_z J1 ! i ! 0 = Fin (ln (2 / 3)) \<and> sp2_z J3 ! i ! 0 = Fin (ln (2 / 5)) \<and>
        dexp (sp2_z J1 ! i ! 0) = Fin (2 / 3) \<and> dexp (sp2_z J3 ! i ! 0) = Fin (2 / 5))) \<and>
   (init lib m df gridh = Inr (J1, J3) \<and> createNonuniformGrid_spec lib \<and> CubicSpline2d_spec lib \<longrightarrow>
     sp2_y J1 ! 0 = Fin 0 \<and> sp2_y J3 ! 0 = Fin 0 \<and>
     spline2d_ymin lib J1 = Fin 0 \<and> spline2d_ymin lib J3 = Fin 0 \<and>
     (\<forall>x. dle (spline2d_xmin lib J1) x \<and> dle x (spline2d_xmax lib J1) \<longrightarrow>
        spline2d_value lib J1 x (spline2d_ymin lib J1) = Fin (ln (2 / 3)) \<and>
        dexp (spline2d_value lib J1 x (spline2d_ymin lib J1)) = Fin (2 / 3)) \<and>
     (\<forall>x. dle (spline2d_xmin lib J3) x \<and> dle x (spline2d_xmax lib J3) \<longrightarrow>
        spline2d_value lib J3 x (spline2d_ymin lib J3) = Fin (ln (2 / 5)) \<and>
        dexp (spline2d_value lib J3 x (spline2d_ymin lib J3)) = Fin (2 / 5)))"
proof (intro conjI impI)
  assume a: "init lib m df gridh = Inr (J1, J3)"
  from init_success[OF a] show "length (sp2_z J1) = length (sp2_x J1)" by auto
  from init_success[OF a] show "length (sp2_z J3) = length (sp2_x J3)" by auto
  show "\<forall>i < length (sp2_x J1).
        sp2_z J1 ! i ! 0 = Fin (ln (2 / 3)) \<and> sp2_z J3 ! i ! 0 = Fin (ln (2 / 5)) \<and>
        dexp (sp2_z J1 ! i ! 0) = Fin (2 / 3) \<and> dexp (sp2_z J3 ! i ! 0) = Fin (2 / 5)"
  proof (intro allI impI)
    fix i assume i: "i < length (sp2_x J1)"
    from init_rows[OF a i] obtain xs ys where
      r: "sp2_z J1 ! i = dlog (Fin (2 / 3)) # xs" "sp2_z J3 ! i = dlog (Fin (2 / 5)) # ys" by blast
    then show "sp2_z J1 ! i ! 0 = Fin (ln (2 / 3)) \<and> sp2_z J3 ! i ! 0 = Fin (ln (2 / 5)) \<and>
        dexp (sp2_z J1 ! i ! 0) = Fin (2 / 3) \<and> dexp (sp2_z J3 ! i ! 0) = Fin (2 / 5)"
      by simp
  qed
next
  assume h: "init lib m df gridh = Inr (J1, J3) \<and> createNonuniformGrid_spec lib \<and> CubicSpline2d_spec lib"
  then have a: "init lib m df gridh = Inr (J1, J3)" and gs: "createNonuniformGrid_spec lib"
    and ss: "CubicSpline2d_spec lib" by simp_all
  from init_success_gridY[OF a] obtain d x where
    y1: "sp2_y J1 = createNonuniformGrid lib npointsY d x True" and
    y3: "sp2_y J3 = createNonuniformGrid lib npointsY d x True" by blast
  from gs have gy: "length (createNonuniformGrid lib npointsY d x True) = npointsY"
    "createNonuniformGrid lib npointsY d x True ! 0 = Fin 0"
    by (simp_all add: createNonuniformGrid_spec_def npointsY_def)
  from gy y1 have ne1: "sp2_y J1 \<noteq> []" by (auto simp add: npointsY_def)
  from gy y3 have ne3: "sp2_y J3 \<noteq> []" by (auto simp add: npointsY_def)
  show z1: "sp2_y J1 ! 0 = Fin 0" using y1 gy by simp
  show z3: "sp2_y J3 ! 0 = Fin 0" using y3 gy by simp
  have h1: "hd (sp2_y J1) = Fin 0" using ne1 z1 by (simp add: hd_conv_nth)
  have h3: "hd (sp2_y J3) = Fin 0" using ne3 z3 by (simp add: hd_conv_nth)
  from ss have m1: "spline2d_ymin lib J1 = hd (sp2_y J1)" and m3: "spline2d_ymin lib J3 = hd (sp2_y J3)"
    by (simp_all add: CubicSpline2d_spec_def)
  show "spline2d_ymin lib J1 = Fin 0" using m1 h1 by simp
  show "spline2d_ymin lib J3 = Fin 0" using m3 h3 by simp
  from init_success[OF a] have x13: "sp2_x J3 = sp2_x J1" and xne: "sp2_x J1 \<noteq> []" by auto
  have c1: "\<forall>i < length (sp2_x J1). sp2_z J1 ! i ! 0 = Fin (ln (2 / 3))"
  proof (intro allI impI)
    fix i assume i: "i < length (sp2_x J1)"
    from init_rows[OF a i] show "sp2_z J1 ! i ! 0 = Fin (ln (2 / 3))" by auto
  qed
  have c3: "\<forall>i < length (sp2_x J3). sp2_z J3 ! i ! 0 = Fin (ln (2 / 5))"
  proof (intro allI impI)
    fix i assume "i < length (sp2_x J3)"
    then have i: "i < length (sp2_x J1)" using x13 by simp
    from init_rows[OF a i] show "sp2_z J3 ! i ! 0 = Fin (ln (2 / 5))" by auto
  qed
  from ss have lim1: "spline2d_xmin lib J1 = hd (sp2_x J1)" "spline2d_xmax lib J1 = last (sp2_x J1)"
    and lim3: "spline2d_xmin lib J3 = hd (sp2_x J3)" "spline2d_xmax lib J3 = last (sp2_x J3)"
    by (simp_all add: CubicSpline2d_spec_def)
  from ss have v: "\<And>s c x. sp2_x s \<noteq> [] \<Longrightarrow> sp2_y s \<noteq> [] \<Longrightarrow>
      \<forall>i < length (sp2_x s). sp2_z s ! i ! 0 = c \<Longrightarrow>
      dle (hd (sp2_x s)) x \<Longrightarrow> dle x (last (sp2_x s)) \<Longrightarrow>
      spline2d_value lib s x (hd (sp2_y s)) = c"
    unfolding CubicSpline2d_spec_def by blast
  show "\<forall>x. dle (spline2d_xmin lib J1) x \<and> dle x (spline2d_xmax lib J1) \<longrightarrow>
        spline2d_value lib J1 x (spline2d_ymin lib J1) = Fin (ln (2 / 3)) \<and>
        dexp (spline2d_value lib J1 x (spline2d_ymin lib J1)) = Fin (2 / 3)"
  proof (intro allI impI)
    fix x assume "dle (spline2d_xmin lib J1) x \<and> dle x (spline2d_xmax lib J1)"
    then have "dle (hd (sp2_x J1)) x" "dle x (last (sp2_x J1))" unfolding lim1 by simp_all
    from v[OF xne ne1 c1 this] have "spline2d_value lib J1 x (spline2d_ymin lib J1) = Fin (ln (2 / 3))"
      unfolding m1 .
    then show "spline2d_value lib J1 x (spline2d_ymin lib J1) = Fin (ln (2 / 3)) \<and>
        dexp (spline2d_value lib J1 x (spline2d_ymin lib J1)) = Fin (2 / 3)" by simp
  qed
  show "\<forall>x. dle (spline2d_xmin lib J3) x \<and> dle x (spline2d_xmax lib J3) \<longrightarrow>
        spline2d_value lib J3 x (spline2d_ymin lib J3) = Fin (ln (2 / 5)) \<and>
        dexp (spline2d_value lib J3 x (spline2d_ymin lib J3)) = Fin (2 / 5)"
  proof (intro allI impI)
    fix x assume "dle (spline2d_xmin lib J3) x \<and> dle x (spline2d_xmax lib J3)"
    then have "dle (hd (sp2_x J3)) x" "dle x (last (sp2_x J3))" unfolding lim3 by simp_all
    from v[OF _ ne3 c3 this] xne x13
    have "spline2d_value lib J3 x (spline2d_ymin lib J3) = Fin (ln (2 / 5))"
      unfolding m3 by simp
    then show "spline2d_value lib J3 x (spline2d_ymin lib J3) = Fin (ln (2 / 5)) \<and>
        dexp (spline2d_value lib J3 x (spline2d_ymin lib J3)) = Fin (2 / 5)" by simp
  qed
qed

theorem init_boundary_values_witness:
  "\<exists>m J1 J3.
     SphericalIsotropicModel_new node_lib stub_phasevol cored_df
       [Fin (1 / 4), Fin 1, Fin 4, Fin 16] = Inr m \<and>
     init node_lib m cored_df [Fin (1 / 4), Fin 1, Fin 4, Fin 16] = Inr (J1, J3) \<and>
     length (sp2_x J1) = 4 \<and> length (sp2_z J1) = 4 \<and> length (sp2_z J3) = 4 \<and>
     sp2_z J1 ! 0 ! 0 = Fin (ln (2 / 3)) \<and> sp2_z J3 ! 0 ! 0 = Fin (ln (2 / 5)) \<and>
     sp2_z J1 ! 1 ! 0 = Fin (ln (2 / 3)) \<and> sp2_z J3 ! 1 ! 0 = Fin (ln (2 / 5)) \<and>
     sp2_z J1 ! 2 ! 0 = Fin (ln (2 / 3)) \<and> sp2_z J3 ! 2 ! 0 = Fin (ln (2 / 5)) \<and>
     sp2_z J1 ! 3 ! 0 = Fin (ln (2 / 3)) \<and> sp2_z J3 ! 3 ! 0 = Fin (ln (2 / 5)) \<and>
     sp2_y J1 ! 0 = Fin 0 \<and> spline2d_ymin node_lib J1 = Fin 0 \<and>
     spline2d_xmin node_lib J1 = Fin (- ln 4) \<and> spline2d_xmax node_lib J1 = Fin (2 * ln 4) \<and>
     dexp (spline2d_value node_lib J1 (Fin (1 / 2)) (spline2d_ymin node_lib J1)) = Fin (2 / 3) \<and>
     dexp (spline2d_value node_lib J3 (Fin (1 / 2)) (spline2d_ymin node_lib J3)) = Fin (2 / 5)"
proof -
  from cored_model obtain m where
    m: "SphericalIsotropicModel_new stub_lib stub_phasevol cored_df
          [Fin (1 / 4), Fin 1, Fin 4, Fin 16] = Inr m" by blast
  then have m': "SphericalIsotropicModel_new node_lib stub_phasevol cored_df
          [Fin (1 / 4), Fin 1, Fin 4, Fin 16] = Inr m" by (simp add: new_node_lib)
  from constructor_result[OF m] have pv: "phasevol m = stub_phasevol" by simp
  from init_cored_succeeds[OF pv] obtain J1 J3 where
    ok: "init node_lib m cored_df [Fin (1 / 4), Fin 1, Fin 4, Fin 16] = Inr (J1, J3)" by blast
  from init_success[OF ok] have x: "sp2_x J1 = [Fin (- ln 4), Fin 0, Fin (ln 4), Fin (2 * ln 4)]"
    "sp2_x J3 = [Fin (- ln 4), Fin 0, Fin (ln 4), Fin (2 * ln 4)]"
    by (auto simp add: cored_node_grid cored_trim)
  have lim: "spline2d_xmin node_lib J1 = Fin (- ln 4)" "spline2d_xmax node_lib J1 = Fin (2 * ln 4)"
    "spline2d_xmin node_lib J3 = Fin (- ln 4)" "spline2d_xmax node_lib J3 = Fin (2 * ln 4)"
    using x by (simp_all add: node_lib_def stub_lib_def)
  have "- ln (4::real) \<le> 1 / 2" "(1 / 2 :: real) \<le> 2 * ln 4" using ln4_ge by simp_all
  then have r: "dle (Fin (- ln 4)) (Fin (1 / 2))" "dle (Fin (1 / 2)) (Fin (2 * ln 4))"
    by (auto simp add: dle_def)
  note T = init_boundary_values[of node_lib m cored_df "[Fin (1 / 4), Fin 1, Fin 4, Fin 16]" J1 J3]
  from T ok have A: "length (sp2_z J1) = length (sp2_x J1)" "length (sp2_z J3) = length (sp2_x J3)"
    by blast+
  from T ok have B: "\<forall>i < length (sp2_x J1).
        sp2_z J1 ! i ! 0 = Fin (ln (2 / 3)) \<and> sp2_z J3 ! i ! 0 = Fin (ln (2 / 5)) \<and>
        dexp (sp2_z J1 ! i ! 0) = Fin (2 / 3) \<and> dexp (sp2_z J3 ! i ! 0) = Fin (2 / 5)"
    by blast
  from T ok node_lib_grid node_lib_spline
  have C: "sp2_y J1 ! 0 = Fin 0" "spline2d_ymin node_lib J1 = Fin 0"
    by blast+
  from T ok node_lib_grid node_lib_spline
  have D1: "\<forall>x. dle (spline2d_xmin node_lib J1) x \<and> dle x (spline2d_xmax node_lib J1) \<longrightarrow>
        spline2d_value node_lib J1 x (spline2d_ymin node_lib J1) = Fin (ln (2 / 3)) \<and>
        dexp (spline2d_value node_lib J1 x (spline2d_ymin node_lib J1)) = Fin (2 / 3)"
    by blast
  from T ok node_lib_grid node_lib_spline
  have D3: "\<forall>x. dle (spline2d_xmin node_lib J3) x \<and> dle x (spline2d_xmax node_lib J3) \<longrightarrow>
        spline2d_value node_lib J3 x (spline2d_ymin node_lib J3) = Fin (ln (2 / 5)) \<and>
        dexp (spline2d_value node_lib J3 x (spline2d_ymin node_lib J3)) = Fin (2 / 5)"
    by blast
  have l: "length (sp2_x J1) = 4" using x by simp
  from B[rule_format, of 0] B[rule_format, of 1] B[rule_format, of 2] B[rule_format, of 3] l
  have b: "sp2_z J1 ! 0 ! 0 = Fin (ln (2 / 3))" "sp2_z J3 ! 0 ! 0 = Fin (ln (2 / 5))"
    "sp2_z J1 ! 1 ! 0 = Fin (ln (2 / 3))" "sp2_z J3 ! 1 ! 0 = Fin (ln (2 / 5))"
    "sp2_z J1 ! 2 ! 0 = Fin (ln (2 / 3))" "sp2_z J3 ! 2 ! 0 = Fin (ln (2 / 5))"
    "sp2_z J1 ! 3 ! 0 = Fin (ln (2 / 3))" "sp2_z J3 ! 3 ! 0 = Fin (ln (2 / 5))"
    by simp_all
  from D1[rule_format, of "Fin (1 / 2)"] r lim
  have d1: "dexp (spline2d_value node_lib J1 (Fin (1 / 2)) (spline2d_ymin node_lib J1)) = Fin (2 / 3)"
    by simp
  from D3[rule_format, of "Fin (1 / 2)"] r lim
  have d3: "dexp (spline2d_value node_lib J3 (Fin (1 / 2)) (spline2d_ymin node_lib J3)) = Fin (2 / 5)"
    by simp
  from m' ok l x A b C lim d1 d3 show ?thesis by simp
qed


end
